theory Spec2Isabelle
  imports Complex_Main "HOL-Library.Sublist" "HOL-Library.Log_Nat" "HOL-Library.List_Lexorder"
begin

section \<open>Python strings\<close>

text \<open>
  A Python \<open>str\<close> is a sequence of Unicode code points; \<open>len\<close>, slicing and
  \<open>strip\<close> count code points. A string is therefore a list of code points
  (natural numbers), and \<open>ustr\<close> reads an ASCII literal of the source.
\<close>

type_synonym pystr = "nat list"

definition ustr :: "string \<Rightarrow> pystr" where
  "ustr s = map of_char s"

text \<open>
  The characters \<open>str.strip()\<close> removes when called without an argument: the code
  points for which \<open>str.isspace\<close> holds.
\<close>

definition is_space :: "nat \<Rightarrow> bool" where
  "is_space c \<longleftrightarrow>
     (9 \<le> c \<and> c \<le> 13) \<or> (28 \<le> c \<and> c \<le> 32) \<or> c = 133 \<or> c = 160 \<or> c = 5760 \<or>
     (8192 \<le> c \<and> c \<le> 8202) \<or> c = 8232 \<or> c = 8233 \<or> c = 8239 \<or> c = 8287 \<or>
     c = 12288"

definition strip :: "pystr \<Rightarrow> pystr" where
  "strip s = rev (dropWhile is_space (rev (dropWhile is_space s)))"

section \<open>\<open>AudioSplitter.sanitize_filename\<close> on a string\<close>

text \<open>
  \<^verbatim>\<open>invalid_chars = '<>:"/\\|?*'\<close>: the nine characters
  \<open>< > : " / \ | ? *\<close>, by code point.
\<close>

definition invalid_chars :: pystr where
  "invalid_chars = [60, 62, 58, 34, 47, 92, 124, 63, 42]"

text \<open>
  \<^verbatim>\<open>
  filename = ''.join(c for c in filename if c not in invalid_chars)
  filename = filename.strip()
  return filename[:200] if len(filename) > 200 else filename
  \<close>
\<close>

definition sanitize_str :: "pystr \<Rightarrow> pystr" where
  "sanitize_str filename =
     (let joined = filter (\<lambda>c. c \<notin> set invalid_chars) filename;
          stripped = strip joined
      in if length stripped > 200 then take 200 stripped else stripped)"

section \<open>Python floats\<close>

text \<open>
  A Python \<open>float\<close> is an IEEE 754 binary64 value: a finite number (a rational), an
  infinity or a NaN. The sign of zero is not kept. \<open>round_double\<close> rounds an exact
  rational to the nearest binary64 value, ties to even: 53 significant bits for a
  normal number, multiples of \<open>2 ^ -1074\<close> below \<open>2 ^ -1022\<close>.
\<close>

datatype pyfloat = Finite rat | PosInf | NegInf | NaN

definition pow2 :: "int \<Rightarrow> rat" where
  "pow2 e = (if 0 \<le> e then 2 ^ nat e else 1 / 2 ^ nat (- e))"

definition round_half_even :: "rat \<Rightarrow> int" where
  "round_half_even x =
     (let f = \<lfloor>x\<rfloor>; d = x - of_int f
      in if d < 1 / 2 then f else if 1 / 2 < d then f + 1
         else if even f then f else f + 1)"

text \<open>The binary exponent of a positive rational: \<open>2 ^ e \<le> q < 2 ^ (e + 1)\<close>.\<close>

definition ilog2 :: "rat \<Rightarrow> int" where
  "ilog2 q = (if 1 \<le> q then bitlen \<lfloor>q\<rfloor> - 1 else - bitlen (\<lceil>1 / q\<rceil> - 1))"

definition round_mag :: "rat \<Rightarrow> rat" where
  "round_mag q =
     (if q = 0 then 0
      else let e = max (ilog2 q) (- 1022); ulp = pow2 (e - 52)
           in of_int (round_half_even (q / ulp)) * ulp)"

definition round_double :: "rat \<Rightarrow> rat" where
  "round_double q = (if q < 0 then - round_mag (- q) else round_mag q)"

datatype py_error = TypeError | ValueError | OverflowError | AttributeError | KeyError
  | IndexError | OSError | CalledProcessError | UnicodeEncodeError

text \<open>
  \<open>int(x)\<close> of a float truncates towards zero; it raises \<open>ValueError\<close> on a NaN
  and \<open>OverflowError\<close> on an infinity.
\<close>

definition trunc_rat :: "rat \<Rightarrow> int" where
  "trunc_rat q = (if q < 0 then - \<lfloor>- q\<rfloor> else \<lfloor>q\<rfloor>)"

fun py_int :: "pyfloat \<Rightarrow> py_error + int" where
  "py_int (Finite q) = Inr (trunc_rat q)"
| "py_int NaN = Inl ValueError"
| "py_int PosInf = Inl OverflowError"
| "py_int NegInf = Inl OverflowError"

section \<open>Decoded JSON\<close>

text \<open>
  What \<open>response.json()\<close> returns: \<open>None\<close>, a bool, an int, a float (the decoder
  also accepts \<open>NaN\<close> and \<open>Infinity\<close>), a str, a list, or a dict, here the list of
  its items (keys distinct, looked up with \<open>map_of\<close>).
\<close>

datatype json = JNull | JBool bool | JInt int | JFloat pyfloat | JStr pystr
  | JArr "json list" | JObj "(pystr \<times> json) list"

text \<open>\<open>d.get(key, default)\<close> on a dict.\<close>

definition dict_get :: "(pystr \<times> json) list \<Rightarrow> string \<Rightarrow> json \<Rightarrow> json" where
  "dict_get d key dflt = (case map_of d (ustr key) of None \<Rightarrow> dflt | Some v \<Rightarrow> v)"

text \<open>Truth value of a decoded value, as \<open>if x:\<close> and \<open>not x\<close> test it.\<close>

fun truthy :: "json \<Rightarrow> bool" where
  "truthy JNull = False"
| "truthy (JBool b) = b"
| "truthy (JInt n) = (n \<noteq> 0)"
| "truthy (JFloat f) = (f \<noteq> Finite 0)"
| "truthy (JStr s) = (s \<noteq> [])"
| "truthy (JArr xs) = (xs \<noteq> [])"
| "truthy (JObj kvs) = (kvs \<noteq> [])"

text \<open>
  \<open>x / 1000\<close>: true division. An int (a bool counts as one) divided by an int gives
  the correctly rounded quotient, or \<open>OverflowError\<close> when that is beyond the
  largest float; a float is divided as IEEE 754 does; anything else raises
  \<open>TypeError\<close>.
\<close>

definition int_truediv :: "int \<Rightarrow> int \<Rightarrow> py_error + pyfloat" where
  "int_truediv a b =
     (let r = round_double (of_int a / of_int b)
      in if 2 ^ 1024 \<le> \<bar>r\<bar> then Inl OverflowError else Inr (Finite r))"

fun div_1000 :: "json \<Rightarrow> py_error + pyfloat" where
  "div_1000 (JInt n) = int_truediv n 1000"
| "div_1000 (JBool b) = int_truediv (if b then 1 else 0) 1000"
| "div_1000 (JFloat (Finite q)) = Inr (Finite (round_double (q / 1000)))"
| "div_1000 (JFloat f) = Inr f"
| "div_1000 _ = Inl TypeError"

section \<open>\<open>AudioSplitter.sanitize_filename\<close> on any decoded value\<close>

text \<open>
  A chapter title is whatever the service sent. \<open>for c in filename\<close> runs over the
  characters of a str (one-character strings), the elements of a list or the keys of a
  dict, and raises \<open>TypeError\<close> on anything else; \<open>c not in invalid_chars\<close> is a
  substring test, which raises \<open>TypeError\<close> when \<open>c\<close> is not a str;
  \<open>''.join\<close> concatenates what is kept.
\<close>

fun iter_items :: "json \<Rightarrow> py_error + json list" where
  "iter_items (JArr xs) = Inr xs"
| "iter_items (JStr s) = Inr (map (\<lambda>c. JStr [c]) s)"
| "iter_items (JObj kvs) = Inr (map (\<lambda>kv. JStr (fst kv)) kvs)"
| "iter_items _ = Inl TypeError"

fun keep_valid :: "json list \<Rightarrow> py_error + pystr list" where
  "keep_valid [] = Inr []"
| "keep_valid (JStr c # cs) =
     (case keep_valid cs of
        Inl e \<Rightarrow> Inl e
      | Inr kept \<Rightarrow> Inr (if \<not> sublist c invalid_chars then c # kept else kept))"
| "keep_valid (_ # cs) = Inl TypeError"

definition sanitize_filename :: "json \<Rightarrow> py_error + pystr" where
  "sanitize_filename filename =
     (case iter_items filename of
        Inl e \<Rightarrow> Inl e
      | Inr cs \<Rightarrow>
          (case keep_valid cs of
             Inl e \<Rightarrow> Inl e
           | Inr kept \<Rightarrow>
               (let stripped = strip (concat kept)
                in Inr (if length stripped > 200 then take 200 stripped else stripped))))"

section \<open>The outside world\<close>

text \<open>
  What the program reads from its collaborators is a parameter of the model: the
  directory listing, mutagen's reading of a file, the catalogue's responses, the two
  interactive dialogues (\<open>get_user_choice\<close> and \<open>manual_search\<close> loop on
  \<open>input()\<close> until the user settles; their outcome is taken as given), the exit status
  of each ffmpeg run, and whether a write, a tag update or a removal goes through.

  Of the console, what is modelled is \<open>print\<close> raising \<open>UnicodeEncodeError\<close> on a
  text that \<open>sys.stdout\<close> cannot encode, in \<open>AudiMetaClient.fetch_chapters\<close> and
  in the \<open>except\<close> clauses of the two requests: \<open>console v\<close> tells whether a line
  that shows the value \<open>v\<close> goes through. The fixed messages of the program, the
  messages of its exceptions, and the names of the folder and of its files are taken to
  print; so are the lines of \<open>split_by_chapters\<close>, which show titles that
  \<open>fetch_chapters\<close> has printed in its table before.
\<close>

text \<open>
  What \<open>requests.get\<close>, \<open>raise_for_status\<close> and \<open>response.json()\<close> come to.
  The flags say whether the console takes what an \<open>except\<close> clause prints of the
  response (\<open>response.text\<close>, and for \<open>BadResponse\<close> and \<open>OtherError\<close> the
  message of the exception).
\<close>

datatype http_outcome =
    Answer json bool          \<comment> \<open>the decoded body; whether \<open>response.text\<close> prints\<close>
  | NoResponse                \<comment> \<open>a \<open>RequestException\<close> whose \<open>response\<close> is \<open>None\<close>\<close>
  | BadResponse bool          \<comment> \<open>a \<open>RequestException\<close> that carries its response\<close>
  | OtherError bool           \<comment> \<open>any other exception\<close>

datatype tag_read =
    Unreadable                \<comment> \<open>\<open>MP3(file_path, ID3=ID3)\<close> raises\<close>
  | NoTags                    \<comment> \<open>\<open>audio.tags\<close> is \<open>None\<close> or empty\<close>
  | Tags pystr pystr pystr    \<comment> \<open>\<open>str(tags.get(k, ''))\<close> for \<open>TIT2\<close>, \<open>TALB\<close>, \<open>TPE1\<close>\<close>

datatype run_result =
    RunRaised                 \<comment> \<open>\<open>subprocess.run\<close> raises (no ffmpeg, unencodable argument)\<close>
  | Exit int                  \<comment> \<open>\<open>result.returncode\<close>\<close>

datatype manifest_io =
    ManifestOk
  | OpenFailed                \<comment> \<open>\<open>open(file_list, 'w')\<close> raises: no file\<close>
  | ManifestIoFailed          \<comment> \<open>writing or reading back raises: the file is there\<close>

text \<open>
  The extraction command
  \<^verbatim>\<open>['ffmpeg', '-i', input_path, '-ss', start, '-t', duration, '-c', 'copy', '-y', output_file]\<close>.
  \<open>cmd_ss\<close> and \<open>cmd_t\<close> hold the values whose \<open>str(...)\<close> is passed.
\<close>

record cut_cmd =
  cmd_input :: pystr
  cmd_ss :: json
  cmd_t :: int
  cmd_output :: pystr

record processed_chapter =
  title :: json
  start :: json
  duration :: int

record env =
  folder_path :: pystr
  listdir :: "pystr list option"
  read_tags :: "pystr \<Rightarrow> tag_read"
  mp3_length :: "pystr \<Rightarrow> rat option"
  http_search :: "json \<Rightarrow> json \<Rightarrow> json \<Rightarrow> http_outcome"
  get_user_choice :: "json \<Rightarrow> json option"
  manual_search :: "json option"
  http_chapters :: "json \<Rightarrow> http_outcome"
  write_manifest :: "pystr \<Rightarrow> pystr list \<Rightarrow> manifest_io"
  run_concat :: "pystr list \<Rightarrow> pystr \<Rightarrow> run_result"
  run_cut :: "cut_cmd \<Rightarrow> run_result"
  tag_ok :: "pystr \<Rightarrow> processed_chapter \<Rightarrow> nat \<Rightarrow> nat \<Rightarrow> json \<Rightarrow> bool"
  remove_ok :: "pystr \<Rightarrow> bool"
  console :: "json \<Rightarrow> bool"

text \<open>
  What the program does to the outside world, in order, and the files that exist.
  A successful ffmpeg run leaves its output file; a failed one leaves nothing.
\<close>

datatype event =
    Search json json json
  | UserChoice json
  | ManualSearch
  | GetChapters json
  | WriteManifest pystr "pystr list"
  | FfmpegConcat pystr pystr run_result
  | FfmpegCut nat cut_cmd run_result
  | EntryError nat py_error
  | TagFile pystr bool
  | Remove pystr bool

record world =
  files :: "pystr set"
  trace :: "event list"

definition emit :: "event \<Rightarrow> world \<Rightarrow> world" where
  "emit ev w = w\<lparr>trace := trace w @ [ev]\<rparr>"

definition create :: "pystr \<Rightarrow> world \<Rightarrow> world" where
  "create p w = w\<lparr>files := insert p (files w)\<rparr>"

text \<open>\<open>os.remove(p)\<close>: the flag is \<open>False\<close> when it raises.\<close>

definition os_remove :: "env \<Rightarrow> pystr \<Rightarrow> world \<Rightarrow> bool \<times> world" where
  "os_remove env p w =
     (if remove_ok env p then (True, emit (Remove p True) (w\<lparr>files := files w - {p}\<rparr>))
      else (False, emit (Remove p False) w))"

text \<open>\<open>os.path.join(a, b)\<close> (POSIX).\<close>

definition path_join :: "pystr \<Rightarrow> pystr \<Rightarrow> pystr" where
  "path_join a b =
     (if b \<noteq> [] \<and> hd b = 47 then b
      else if a = [] \<or> last a = 47 then a @ b
      else a @ [47] @ b)"

definition combined_file :: pystr where
  "combined_file = ustr ''combined_temp.mp3''"

section \<open>\<open>AudioSplitter.get_mp3_files\<close> and \<open>calculate_total_duration\<close>\<close>

text \<open>
  \<open>f.lower().endswith('.mp3')\<close>: \<open>str.lower\<close> yields \<open>m\<close> and \<open>p\<close> only from
  \<open>m\<close>, \<open>M\<close>, \<open>p\<close>, \<open>P\<close>, and \<open>.\<close> and \<open>3\<close> only from themselves.
\<close>

definition lower_endswith_mp3 :: "pystr \<Rightarrow> bool" where
  "lower_endswith_mp3 f =
     (case rev f of
        c3 # p # m # dot # _ \<Rightarrow>
          c3 = 51 \<and> (p = 112 \<or> p = 80) \<and> (m = 109 \<or> m = 77) \<and> dot = 46
      | _ \<Rightarrow> False)"

definition get_mp3_files :: "env \<Rightarrow> pystr list" where
  "get_mp3_files env =
     (case listdir env of
        None \<Rightarrow> []
      | Some names \<Rightarrow> sort (filter lower_endswith_mp3 names))"

text \<open>\<open>None\<close>: reading a file's duration raised, and the exception is re-raised.\<close>

fun total_loop :: "env \<Rightarrow> rat \<Rightarrow> pystr list \<Rightarrow> rat option" where
  "total_loop env total_duration [] = Some total_duration"
| "total_loop env total_duration (mp3_file # rest) =
     (case mp3_length env (path_join (folder_path env) mp3_file) of
        None \<Rightarrow> None
      | Some l \<Rightarrow> total_loop env (round_double (total_duration + l)) rest)"

definition calculate_total_duration :: "env \<Rightarrow> pystr list \<Rightarrow> rat option" where
  "calculate_total_duration env mp3_files = total_loop env 0 mp3_files"

section \<open>\<open>AudiMetaClient\<close>\<close>

definition fallback_title :: pystr where
  "fallback_title = ustr ''Mother''"

definition fallback_author :: pystr where
  "fallback_author = ustr ''m.s. RedCherries''"

text \<open>\<open>get_metadata_from_file\<close>: a dict with the keys \<open>title\<close>, \<open>author\<close>, \<open>region\<close>, or \<open>None\<close>.\<close>

definition get_metadata_from_file :: "env \<Rightarrow> pystr \<Rightarrow> (pystr \<times> json) list option" where
  "get_metadata_from_file env file_path =
     (case read_tags env file_path of
        Unreadable \<Rightarrow> None
      | NoTags \<Rightarrow>
          Some [(ustr ''title'', JStr fallback_title),
                (ustr ''author'', JStr fallback_author),
                (ustr ''region'', JStr (ustr ''US''))]
      | Tags tit2 talb tpe1 \<Rightarrow>
          Some [(ustr ''title'',
                   JStr (if tit2 \<noteq> [] then tit2 else if talb \<noteq> [] then talb else fallback_title)),
                (ustr ''author'', JStr (if tpe1 \<noteq> [] then tpe1 else fallback_author)),
                (ustr ''region'', JStr (ustr ''US''))])"

text \<open>
  \<open>fetch_book_metadata\<close>: one request to \<open>/search\<close>; a non-empty answer goes to
  \<open>get_user_choice\<close>, an empty one to \<open>manual_search\<close>. When the request fails,
  the \<open>except\<close> clause prints \<open>e.response.status_code\<close> and \<open>e.response.text\<close>
  before it goes to \<open>manual_search\<close>: with no response that raises
  \<open>AttributeError\<close>, which leaves the method.
\<close>

definition fetch_book_metadata ::
  "env \<Rightarrow> (pystr \<times> json) list \<Rightarrow> world \<Rightarrow> (py_error + json option) \<times> world" where
  "fetch_book_metadata env search_params w =
     (let t = dict_get search_params ''title'' (JStr []);
          a = dict_get search_params ''author'' (JStr []);
          r = dict_get search_params ''region'' (JStr (ustr ''US''));
          w1 = emit (Search t a r) w
      in case http_search env t a r of
           Answer results shown \<Rightarrow>
             if truthy results
             then (Inr (get_user_choice env results), emit (UserChoice results) w1)
             else (Inr (manual_search env), emit ManualSearch w1)
         | NoResponse \<Rightarrow> (Inl AttributeError, w1)
         | BadResponse shown \<Rightarrow>
             if shown then (Inr (manual_search env), emit ManualSearch w1)
             else (Inl UnicodeEncodeError, w1)
         | OtherError shown \<Rightarrow>
             if shown then (Inr (manual_search env), emit ManualSearch w1)
             else (Inl UnicodeEncodeError, w1))"

text \<open>
  \<^verbatim>\<open>
  processed_chapter = {
      'title': chapter.get('title', 'Unknown'),
      'start': chapter.get('startOffsetSec', 0),
      'duration': int(chapter.get('lengthMs', 0) / 1000)
  }
  \<close>
  \<open>chapter.get\<close> raises \<open>AttributeError\<close> unless \<open>chapter\<close> is a dict.
\<close>

definition process_chapter :: "json \<Rightarrow> py_error + processed_chapter" where
  "process_chapter raw =
     (case raw of
        JObj d \<Rightarrow>
          (case div_1000 (dict_get d ''lengthMs'' (JInt 0)) of
             Inl e \<Rightarrow> Inl e
           | Inr f \<Rightarrow>
               (case py_int f of
                  Inl e \<Rightarrow> Inl e
                | Inr n \<Rightarrow>
                    Inr \<lparr>title = dict_get d ''title'' (JStr (ustr ''Unknown'')),
                         start = dict_get d ''startOffsetSec'' (JInt 0),
                         duration = n\<rparr>))
      | _ \<Rightarrow> Inl AttributeError)"

fun process_loop ::
  "processed_chapter list \<Rightarrow> json list \<Rightarrow> py_error + processed_chapter list" where
  "process_loop processed_chapters [] = Inr processed_chapters"
| "process_loop processed_chapters (raw # rest) =
     (case process_chapter raw of
        Inl e \<Rightarrow> Inl e
      | Inr processed \<Rightarrow> process_loop (processed_chapters @ [processed]) rest)"

text \<open>
  The rows of the table that \<open>fetch_chapters\<close> prints:
  \<open>table_data.append([i, title, start, duration])\<close>, for \<open>i\<close> from 1.
\<close>

definition table_data :: "processed_chapter list \<Rightarrow> json list" where
  "table_data processed_chapters =
     map (\<lambda>ic. JArr [JInt (int (fst ic)), title (snd ic), start (snd ic), JInt (duration (snd ic))])
       (enumerate 1 processed_chapters)"

text \<open>
  The \<open>except\<close> clauses of \<open>fetch_chapters\<close> print the exception and
  \<open>response.text\<close>, and \<open>None\<close> is returned; if the text does not print, the
  \<open>UnicodeEncodeError\<close> leaves the method.
\<close>

definition chapters_handler :: "bool \<Rightarrow> py_error + processed_chapter list option" where
  "chapters_handler shown = (if shown then Inr None else Inl UnicodeEncodeError)"

text \<open>
  \<open>fetch_chapters\<close>. Everything happens inside its \<open>try\<close>: the line that shows
  the ASIN is printed before the request is made; the list is returned after
  \<open>print(tabulate(table_data, ...))\<close>. \<open>None\<close> is returned when the body is not a
  dict with a \<open>chapters\<close> key, and when anything raises and the \<open>except\<close>
  clause gets through; a failed request with no response raises \<open>AttributeError\<close>
  in the \<open>except\<close> clause (\<open>e.response.text\<close>).
\<close>

definition fetch_chapters ::
  "env \<Rightarrow> json \<Rightarrow> world \<Rightarrow> (py_error + processed_chapter list option) \<times> world" where
  "fetch_chapters env asin w =
     (if \<not> console env asin then (Inr None, w)
      else
       (let w1 = emit (GetChapters asin) w
        in case http_chapters env asin of
             NoResponse \<Rightarrow> (Inl AttributeError, w1)
           | BadResponse shown \<Rightarrow> (chapters_handler shown, w1)
           | OtherError shown \<Rightarrow> (chapters_handler shown, w1)
           | Answer data shown \<Rightarrow>
              (case (case data of JObj d \<Rightarrow> map_of d (ustr ''chapters'') | _ \<Rightarrow> None) of
                 None \<Rightarrow>
                   (if console env data then Inr None else chapters_handler shown, w1)
               | Some chapters \<Rightarrow>
                  (case iter_items chapters of
                     Inl e \<Rightarrow> (chapters_handler shown, w1)
                   | Inr raws \<Rightarrow>
                      (case process_loop [] raws of
                         Inl e \<Rightarrow> (chapters_handler shown, w1)
                       | Inr processed_chapters \<Rightarrow>
                           if console env (JArr (table_data processed_chapters))
                           then (Inr (Some processed_chapters), w1)
                           else (chapters_handler shown, w1))))))"

section \<open>\<open>AudioSplitter.combine_mp3_files\<close>\<close>

text \<open>
  One line of the manifest:
  \<^verbatim>\<open>escaped_path = full_path.replace("'", "'\\''"); f.write(f"file '{escaped_path}'\n")\<close>
\<close>

definition manifest_line :: "env \<Rightarrow> pystr \<Rightarrow> pystr" where
  "manifest_line env mp3 =
     (let full_path = path_join (folder_path env) mp3;
          escaped_path = concat (map (\<lambda>c. if c = 39 then [39, 92, 39, 39] else [c]) full_path)
      in ustr ''file '' @ [39] @ escaped_path @ [39, 10])"

text \<open>The \<open>try\<close> block: the manifest is written and read back, then ffmpeg runs.\<close>

definition combine_try :: "env \<Rightarrow> pystr list \<Rightarrow> pystr \<Rightarrow> pystr \<Rightarrow> world \<Rightarrow> (py_error + pystr) \<times> world" where
  "combine_try env mp3_files file_list output_file w =
     (let ls = map (manifest_line env) mp3_files
      in case write_manifest env file_list ls of
           OpenFailed \<Rightarrow> (Inl OSError, w)
         | ManifestIoFailed \<Rightarrow> (Inl OSError, create file_list w)
         | ManifestOk \<Rightarrow>
             (let w1 = emit (WriteManifest file_list ls) (create file_list w);
                  r = run_concat env ls output_file;
                  w2 = emit (FfmpegConcat file_list output_file r) w1
              in case r of
                   RunRaised \<Rightarrow> (Inl OSError, w2)
                 | Exit returncode \<Rightarrow>
                     if returncode \<noteq> 0 then (Inl CalledProcessError, w2)
                     else (Inr combined_file, create output_file w2)))"

text \<open>
  The \<open>finally\<close> block: the manifest is removed if it exists; an exception raised
  here replaces the outcome of the \<open>try\<close> block.
\<close>

definition combine_finally :: "env \<Rightarrow> pystr \<Rightarrow> (py_error + pystr) \<times> world \<Rightarrow> (py_error + pystr) \<times> world" where
  "combine_finally env file_list rw =
     (let (r, w) = rw
      in if file_list \<in> files w
         then (let (ok, w1) = os_remove env file_list w
               in if ok then (r, w1) else (Inl OSError, w1))
         else (r, w))"

definition combine_mp3_files :: "env \<Rightarrow> pystr list \<Rightarrow> world \<Rightarrow> (py_error + pystr) \<times> world" where
  "combine_mp3_files env mp3_files w =
     (if length mp3_files = 1 then (Inr (hd mp3_files), w)
      else (let file_list = ustr ''files.txt'';
                output_file = path_join (folder_path env) combined_file
            in combine_finally env file_list
                 (combine_try env mp3_files file_list output_file w)))"

section \<open>\<open>AudioSplitter.split_by_chapters\<close>\<close>

text \<open>\<open>f"{i:02d}"\<close>: the decimal digits of \<open>i\<close>, padded with zeros to two at least.\<close>

fun dec_digits :: "nat \<Rightarrow> pystr" where
  "dec_digits n = (if n < 10 then [48 + n] else dec_digits (n div 10) @ [48 + n mod 10])"

declare dec_digits.simps [simp del]

definition fmt_02d :: "nat \<Rightarrow> pystr" where
  "fmt_02d i = (let d = dec_digits i in replicate (2 - length d) 48 @ d)"

definition chapter_filename :: "nat \<Rightarrow> pystr \<Rightarrow> pystr" where
  "chapter_filename i safe_title = fmt_02d i @ ustr ''_'' @ safe_title @ ustr ''.mp3''"

text \<open>
  \<open>tag_file\<close> catches every exception it meets and returns nothing: whether the tags
  were written shows in the trace only.
\<close>

definition tag_file ::
  "env \<Rightarrow> pystr \<Rightarrow> processed_chapter \<Rightarrow> nat \<Rightarrow> nat \<Rightarrow> json \<Rightarrow> world \<Rightarrow> world" where
  "tag_file env file_path chapter track_num total_tracks book_metadata w =
     emit (TagFile file_path (tag_ok env file_path chapter track_num total_tracks book_metadata)) w"

text \<open>
  \<^verbatim>\<open>
  output_file = os.path.join(self.folder_path, f"{i:02d}_{safe_title}.mp3")
  cmd = ['ffmpeg', '-i', input_path, '-ss', start, '-t', duration, '-c', 'copy', '-y', output_file]
  \<close>
  with \<open>start = str(chapter.get('start', 0))\<close> and
  \<open>duration = str(chapter.get('duration', 0))\<close>.
\<close>

definition cut_command :: "env \<Rightarrow> pystr \<Rightarrow> nat \<Rightarrow> processed_chapter \<Rightarrow> pystr \<Rightarrow> cut_cmd" where
  "cut_command env input_path i chapter safe_title =
     \<lparr>cmd_input = input_path, cmd_ss = start chapter, cmd_t = duration chapter,
      cmd_output = path_join (folder_path env) (chapter_filename i safe_title)\<rparr>"

text \<open>
  The body of the loop for entry \<open>i\<close>, on the pair of \<open>successful_splits\<close> and the
  world. An exception (here: of \<open>sanitize_filename\<close> or of \<open>subprocess.run\<close>) and a
  nonzero exit status both go on to the next entry.
\<close>

definition split_entry ::
  "env \<Rightarrow> pystr \<Rightarrow> nat \<Rightarrow> json \<Rightarrow> nat \<Rightarrow> processed_chapter \<Rightarrow> nat \<times> world \<Rightarrow> nat \<times> world" where
  "split_entry env input_path total_tracks book_metadata i chapter sw =
     (let (successful_splits, w) = sw
      in case sanitize_filename (title chapter) of
           Inl e \<Rightarrow> (successful_splits, emit (EntryError i e) w)
         | Inr safe_title \<Rightarrow>
             (let cmd = cut_command env input_path i chapter safe_title;
                  r = run_cut env cmd;
                  w1 = emit (FfmpegCut i cmd r) w
              in if r = Exit 0
                 then (successful_splits + 1,
                       tag_file env (cmd_output cmd) chapter i total_tracks book_metadata
                         (create (cmd_output cmd) w1))
                 else (successful_splits, w1)))"

fun split_loop ::
  "env \<Rightarrow> pystr \<Rightarrow> nat \<Rightarrow> json \<Rightarrow> nat \<Rightarrow> processed_chapter list \<Rightarrow> nat \<times> world \<Rightarrow> nat \<times> world" where
  "split_loop env input_path total_tracks book_metadata i [] sw = sw"
| "split_loop env input_path total_tracks book_metadata i (chapter # rest) sw =
     split_loop env input_path total_tracks book_metadata (Suc i) rest
       (split_entry env input_path total_tracks book_metadata i chapter sw)"

definition split_by_chapters ::
  "env \<Rightarrow> pystr \<Rightarrow> processed_chapter list \<Rightarrow> json \<Rightarrow> world \<Rightarrow> bool \<times> world" where
  "split_by_chapters env input_file chapters book_metadata w =
     (let input_path = path_join (folder_path env) input_file;
          (successful_splits, w1) =
            split_loop env input_path (length chapters) book_metadata 1 chapters (0, w)
      in (successful_splits = length chapters, w1))"

section \<open>\<open>AudioSplitter.process_folder\<close>\<close>

text \<open>\<open>d[key] = v\<close> on a dict.\<close>

definition dict_set :: "(pystr \<times> json) list \<Rightarrow> string \<Rightarrow> json \<Rightarrow> (pystr \<times> json) list" where
  "dict_set d key v =
     (if ustr key \<in> fst ` set d
      then map (\<lambda>kv. if fst kv = ustr key then (fst kv, v) else kv) d
      else d @ [(ustr key, v)])"

text \<open>
  The removal of the originals: a file that does not exist is passed over; a failed
  removal clears \<open>cleanup_successful\<close> and the loop goes on.
\<close>

fun remove_originals :: "env \<Rightarrow> pystr list \<Rightarrow> bool \<times> world \<Rightarrow> bool \<times> world" where
  "remove_originals env [] cw = cw"
| "remove_originals env (file_path # rest) cw =
     remove_originals env rest
       (let (cleanup_successful, w) = cw
        in if file_path \<in> files w
           then (let (ok, w1) = os_remove env file_path w
                 in (cleanup_successful \<and> ok, w1))
           else (cleanup_successful, w))"

text \<open>The block under \<open>if splitting_successful:\<close>.\<close>

definition cleanup :: "env \<Rightarrow> pystr list \<Rightarrow> pystr list \<Rightarrow> world \<Rightarrow> bool \<times> world" where
  "cleanup env mp3_files original_files w =
     (let (cleanup_successful, w1) = remove_originals env original_files (True, w);
          cleanup_file = path_join (folder_path env) combined_file
      in if length mp3_files > 1 \<and> cleanup_file \<in> files w1
         then (let (ok, w2) = os_remove env cleanup_file w1
               in (cleanup_successful \<and> ok, w2))
         else (cleanup_successful, w1))"

text \<open>
  The end of \<open>process_folder\<close>, from \<open># Combine files if necessary\<close> on: the
  files are combined when there are several, the combined file is split, and the cleanup
  runs if the split succeeded. An exception of \<open>combine_mp3_files\<close> reaches the
  \<open>except\<close> clause of \<open>process_folder\<close>.
\<close>

definition split_and_cleanup ::
  "env \<Rightarrow> pystr list \<Rightarrow> processed_chapter list \<Rightarrow> json \<Rightarrow> world \<Rightarrow> bool \<times> world" where
  "split_and_cleanup env mp3_files chapters book_metadata w =
     (let original_files = map (path_join (folder_path env)) mp3_files;
          (combined, w3) =
            (if length mp3_files > 1 then combine_mp3_files env mp3_files w
             else (Inr (hd mp3_files), w))
      in case combined of
           Inl e \<Rightarrow> (False, w3)
         | Inr input_file \<Rightarrow>
             (let (splitting_successful, w4) =
                    split_by_chapters env input_file chapters book_metadata w3
              in if splitting_successful
                 then (splitting_successful, snd (cleanup env mp3_files original_files w4))
                 else (splitting_successful, w4)))"

text \<open>
  \<open>process_folder\<close> returns \<open>splitting_successful\<close>, and \<open>False\<close> at each early
  return and at every exception, all of which its \<open>except\<close> clause catches.
\<close>

definition process_folder :: "env \<Rightarrow> world \<Rightarrow> bool \<times> world" where
  "process_folder env w =
     (let mp3_files = get_mp3_files env
      in if mp3_files = [] then (False, w)
         else
          (let first_file = path_join (folder_path env) (hd mp3_files)
           in case get_metadata_from_file env first_file of
                None \<Rightarrow> (False, w)
              | Some metadata0 \<Rightarrow>
                 (case calculate_total_duration env mp3_files of
                    None \<Rightarrow> (False, w)
                  | Some total_duration \<Rightarrow>
                     (let metadata = dict_set metadata0 ''lengthMinutes''
                                       (JInt (trunc_rat (round_double (total_duration / 60))));
                          (found, w1) = fetch_book_metadata env metadata w
                      in case found of
                           Inl e \<Rightarrow> (False, w1)
                         | Inr None \<Rightarrow> (False, w1)
                         | Inr (Some book_metadata) \<Rightarrow>
                            if \<not> truthy book_metadata then (False, w1)
                            else
                             (case book_metadata of
                                JObj bm \<Rightarrow>
                                 (case map_of bm (ustr ''asin'') of
                                    None \<Rightarrow> (False, w1)
                                  | Some asin \<Rightarrow>
                                     (let (fetched, w2) = fetch_chapters env asin w1
                                      in case fetched of
                                           Inl e \<Rightarrow> (False, w2)
                                         | Inr None \<Rightarrow> (False, w2)
                                         | Inr (Some chapters) \<Rightarrow>
                                            if chapters = [] then (False, w2)
                                            else split_and_cleanup env mp3_files chapters
                                                   book_metadata w2))
                              | _ \<Rightarrow> (False, w1))))))"

text \<open>The paths \<open>process_folder\<close> keeps in \<open>original_files\<close>.\<close>

definition original_files :: "env \<Rightarrow> pystr list" where
  "original_files env = map (path_join (folder_path env)) (get_mp3_files env)"

section \<open>Reading a trace\<close>

text \<open>The extraction runs of a trace, the entries it attempted, the paths it removed.\<close>

fun cuts :: "event list \<Rightarrow> (nat \<times> cut_cmd \<times> run_result) list" where
  "cuts [] = []"
| "cuts (FfmpegCut i c r # es) = (i, c, r) # cuts es"
| "cuts (_ # es) = cuts es"




text \<open>What a trace does to the files: all but the requests and the dialogues.\<close>

fun acts :: "event list \<Rightarrow> event list" where
  "acts [] = []"
| "acts (Search t a r # es) = acts es"
| "acts (UserChoice results # es) = acts es"
| "acts (ManualSearch # es) = acts es"
| "acts (GetChapters asin # es) = acts es"
| "acts (e # es) = e # acts es"



section \<open>A concrete session\<close>

text \<open>
  A folder \<open>/b\<close> with two parts of 900 seconds each and no tags; the catalogue finds
  one book, the user takes it, and the chapters endpoint answers with the given list;
  every external step succeeds.
\<close>

definition demo_book :: json where
  "demo_book = JObj [(ustr ''title'', JStr (ustr ''A Book'')), (ustr ''asin'', JStr (ustr ''B0''))]"

definition demo_env :: "json \<Rightarrow> env" where
  "demo_env chapters =
     \<lparr>folder_path = ustr ''/b'',
      listdir = Some [ustr ''part2.mp3'', ustr ''notes.txt'', ustr ''part1.mp3''],
      read_tags = (\<lambda>p. NoTags),
      mp3_length = (\<lambda>p. Some 900),
      http_search = (\<lambda>t a r. Answer (JArr [demo_book]) True),
      get_user_choice = (\<lambda>results. Some demo_book),
      manual_search = None,
      http_chapters = (\<lambda>asin. Answer (JObj [(ustr ''chapters'', chapters)]) True),
      write_manifest = (\<lambda>p ls. ManifestOk),
      run_concat = (\<lambda>ls p. Exit 0),
      run_cut = (\<lambda>c. Exit 0),
      tag_ok = (\<lambda>p c i n b. True),
      remove_ok = (\<lambda>p. True),
      console = (\<lambda>v. True)\<rparr>"

definition demo_world :: world where
  "demo_world = \<lparr>files = {ustr ''/b/part1.mp3'', ustr ''/b/part2.mp3''}, trace = []\<rparr>"

definition raw_chapter :: "string \<Rightarrow> int \<Rightarrow> int \<Rightarrow> json" where
  "raw_chapter t s l =
     JObj [(ustr ''title'', JStr (ustr t)), (ustr ''startOffsetSec'', JInt s),
           (ustr ''lengthMs'', JInt l)]"

text \<open>Three chapters as the service may send them: the second has neither title nor length.\<close>

definition three_chapters :: "json list" where
  "three_chapters =
     [raw_chapter ''Intro'' 0 300999,
      JObj [(ustr ''startOffsetSec'', JInt 300)],
      raw_chapter ''End'' 1200 (- 1500)]"

text \<open>Two chapters that carry start offsets and no \<open>lengthMs\<close>.\<close>

definition offsets_only :: "json list" where
  "offsets_only =
     [JObj [(ustr ''title'', JStr (ustr ''A'')), (ustr ''startOffsetSec'', JInt 0)],
      JObj [(ustr ''title'', JStr (ustr ''B'')), (ustr ''startOffsetSec'', JInt 300)]]"

text \<open>What \<open>fetch_chapters\<close> makes of them.\<close>

definition processed_offsets :: "processed_chapter list" where
  "processed_offsets =
     [\<lparr>title = JStr (ustr ''A''), start = JInt 0, duration = 0\<rparr>,
      \<lparr>title = JStr (ustr ''B''), start = JInt 300, duration = 0\<rparr>]"




text \<open>A chapter of some 95 years.\<close>

definition long_chapter :: json where
  "long_chapter = raw_chapter ''Long'' 0 2999999999999999999"

text \<open>What the session asks the catalogue before it touches a file.\<close>

definition demo_prefix :: "event list" where
  "demo_prefix =
     [Search (JStr fallback_title) (JStr fallback_author) (JStr (ustr ''US'')),
      UserChoice (JArr [demo_book]),
      GetChapters (JStr (ustr ''B0''))]"


text \<open>The same session when ffmpeg fails on every chapter.\<close>

definition cut_fail_env :: env where
  "cut_fail_env = (demo_env (JArr offsets_only))\<lparr>run_cut := (\<lambda>c. Exit 1)\<rparr>"



section \<open>The planner as the specification words it\<close>



section \<open>Sanitizing a title\<close>

lemma sanitize_str_take: "sanitize_str x = take 200 (strip (filter (\<lambda>c. c \<notin> set invalid_chars) x))"
  by (simp add: sanitize_str_def Let_def)

lemma strip_decomp:
  "\<exists>a b. s = a @ strip s @ b \<and> (\<forall>c\<in>set a. is_space c) \<and> (\<forall>c\<in>set b. is_space c)"
proof -
  define t where "t = dropWhile is_space s"
  have s: "s = takeWhile is_space s @ t" by (simp add: t_def)
  have "t = rev (takeWhile is_space (rev t) @ dropWhile is_space (rev t))"
    by (simp only: takeWhile_dropWhile_id rev_rev_ident)
  then have "t = rev (dropWhile is_space (rev t)) @ rev (takeWhile is_space (rev t))"
    by (simp only: rev_append)
  then have t: "t = strip s @ rev (takeWhile is_space (rev t))"
    by (simp only: strip_def t_def)
  have a: "\<forall>c\<in>set (takeWhile is_space s). is_space c" by (auto dest: set_takeWhileD)
  have b: "\<forall>c\<in>set (rev (takeWhile is_space (rev t))). is_space c" by (auto dest: set_takeWhileD)
  from s t have "s = takeWhile is_space s @ strip s @ rev (takeWhile is_space (rev t))" by simp
  with a b show ?thesis by blast
qed

lemma strip_ends:
  assumes "strip s \<noteq> []"
  shows "\<not> is_space (hd (strip s))" and "\<not> is_space (last (strip s))"
proof -
  define t where "t = dropWhile is_space s"
  define u where "u = dropWhile is_space (rev t)"
  have su: "strip s = rev u" by (simp add: strip_def t_def u_def)
  with assms have u: "u \<noteq> []" by simp
  then have "\<not> is_space (hd u)" unfolding u_def by (rule hd_dropWhile)
  then show "\<not> is_space (last (strip s))" using u by (simp add: su last_rev)
  have "t = rev (takeWhile is_space (rev t) @ dropWhile is_space (rev t))"
    by (simp only: takeWhile_dropWhile_id rev_rev_ident)
  then have t: "t = rev u @ rev (takeWhile is_space (rev t))"
    by (simp only: rev_append u_def)
  with u have tn: "t \<noteq> []" by auto
  have "hd t = hd (rev u)" using u by (subst t) simp
  moreover have "\<not> is_space (hd t)" using tn unfolding t_def by (rule hd_dropWhile)
  ultimately show "\<not> is_space (hd (strip s))" by (simp add: su)
qed

lemma dropWhile_hd: "xs \<noteq> [] \<Longrightarrow> \<not> P (hd xs) \<Longrightarrow> dropWhile P xs = xs"
  by (cases xs) auto

lemma strip_fixed:
  assumes "r = [] \<or> (\<not> is_space (hd r) \<and> \<not> is_space (last r))"
  shows "strip r = r"
proof (cases "r = []")
  case True then show ?thesis by (simp add: strip_def)
next
  case False
  with assms have h: "\<not> is_space (hd r)" and l: "\<not> is_space (last r)" by auto
  have 1: "dropWhile is_space r = r" using False h by (rule dropWhile_hd)
  have "rev r \<noteq> []" using False by simp
  moreover have "\<not> is_space (hd (rev r))" using False l by (simp add: hd_rev)
  ultimately have 2: "dropWhile is_space (rev r) = rev r" by (rule dropWhile_hd)
  show ?thesis by (simp add: strip_def 1 2)
qed

lemma strip_length: "length (strip s) \<le> length s"
proof -
  have "length (strip s) \<le> length (dropWhile is_space s)"
    unfolding strip_def using length_dropWhile_le[of is_space "rev (dropWhile is_space s)"] by simp
  also have "\<dots> \<le> length s" by (rule length_dropWhile_le)
  finally show ?thesis .
qed

lemma strip_trailing:
  assumes "r \<noteq> []" "is_space (last r)"
  shows "strip r \<noteq> r"
proof
  assume e: "strip r = r"
  with assms(1) have "strip r \<noteq> []" by simp
  then have "\<not> is_space (last (strip r))" by (rule strip_ends)
  with e assms(2) show False by simp
qed

lemma strip_subset: "set (strip s) \<subseteq> set s"
proof -
  obtain a b where "s = a @ strip s @ b" using strip_decomp by blast
  then have "set s = set a \<union> set (strip s) \<union> set b" by (metis set_append Un_assoc)
  then show ?thesis by blast
qed

lemma sanitize_str_valid: "c \<in> set (sanitize_str x) \<Longrightarrow> c \<notin> set invalid_chars"
proof -
  assume "c \<in> set (sanitize_str x)"
  then have "c \<in> set (strip (filter (\<lambda>c. c \<notin> set invalid_chars) x))"
    unfolding sanitize_str_take by (rule in_set_takeD)
  then have "c \<in> set (filter (\<lambda>c. c \<notin> set invalid_chars) x)" using strip_subset by blast
  then show ?thesis by simp
qed

lemma sanitize_str_length: "length (sanitize_str x) \<le> 200"
  by (simp add: sanitize_str_take)

lemma sanitize_str_head:
  assumes "sanitize_str x \<noteq> []" shows "\<not> is_space (hd (sanitize_str x))"
proof -
  let ?s = "strip (filter (\<lambda>c. c \<notin> set invalid_chars) x)"
  from assms have n: "?s \<noteq> []" by (auto simp: sanitize_str_take)
  then have "hd (sanitize_str x) = hd ?s" by (simp add: sanitize_str_take)
  with strip_ends(1)[OF n] show ?thesis by simp
qed

lemma sanitize_str_twice: "sanitize_str (sanitize_str x) = strip (sanitize_str x)"
proof -
  let ?r = "sanitize_str x"
  have "filter (\<lambda>c. c \<notin> set invalid_chars) ?r = ?r"
    using sanitize_str_valid by (simp add: filter_id_conv)
  moreover have "length (strip ?r) \<le> 200"
    using strip_length[of ?r] sanitize_str_length[of x] by linarith
  ultimately show ?thesis by (simp add: sanitize_str_take[of ?r])
qed

lemma sanitize_str_idem_iff:
  "sanitize_str (sanitize_str x) = sanitize_str x \<longleftrightarrow>
     sanitize_str x = [] \<or> \<not> is_space (last (sanitize_str x))"
proof (cases "sanitize_str x = []")
  case True
  then show ?thesis by (simp add: sanitize_str_def strip_def)
next
  case False
  show ?thesis
  proof (cases "is_space (last (sanitize_str x))")
    case True
    with False strip_trailing show ?thesis by (simp add: sanitize_str_twice)
  next
    case l: False
    with sanitize_str_head[OF False] have "strip (sanitize_str x) = sanitize_str x"
      by (intro strip_fixed) simp
    with l show ?thesis by (simp add: sanitize_str_twice)
  qed
qed

lemma sanitize_str_short:
  assumes "length (strip (filter (\<lambda>c. c \<notin> set invalid_chars) x)) \<le> 200"
  shows "sanitize_str x = [] \<or> \<not> is_space (last (sanitize_str x))"
proof -
  have "sanitize_str x = strip (filter (\<lambda>c. c \<notin> set invalid_chars) x)"
    using assms by (simp add: sanitize_str_take)
  then show ?thesis using strip_ends(2) by metis
qed

lemma sublist_single: "sublist [c] ys \<longleftrightarrow> c \<in> set ys"
  by (induction ys) (auto simp: sublist_Cons_right)

lemma keep_valid_chars:
  "keep_valid (map (\<lambda>c. JStr [c]) s) = Inr (map (\<lambda>c. [c]) (filter (\<lambda>c. c \<notin> set invalid_chars) s))"
  by (induction s) (simp_all add: sublist_single)

lemma sanitize_filename_str: "sanitize_filename (JStr s) = Inr (sanitize_str s)"
proof -
  have "concat (map (\<lambda>c. [c]) xs) = xs" for xs :: pystr by (induction xs) simp_all
  then show ?thesis by (simp add: sanitize_filename_def keep_valid_chars sanitize_str_def Let_def)
qed

lemma sanitize_str_subseq: "subseq (sanitize_str x) x"
proof -
  let ?f = "filter (\<lambda>c. c \<notin> set invalid_chars) x"
  obtain a b where "?f = a @ strip ?f @ b" using strip_decomp by blast
  then have "subseq (strip ?f) ?f" by (metis sublist_appendI sublist_imp_subseq)
  moreover have "subseq (take 200 (strip ?f)) (strip ?f)" by (metis prefix_imp_subseq take_is_prefix)
  ultimately have "subseq (sanitize_str x) ?f" unfolding sanitize_str_take by (rule subseq_order.trans[rotated])
  then show ?thesis by (rule subseq_order.trans) simp
qed

lemma cuts_append: "cuts (xs @ ys) = cuts xs @ cuts ys"
  by (induction xs rule: cuts.induct) simp_all

lemma fmt_02d_two_digits: "i < 100 \<Longrightarrow> fmt_02d i = [48 + i div 10, 48 + i mod 10]"
proof (cases "i < 10")
  case True
  then show ?thesis by (simp add: fmt_02d_def dec_digits.simps[of i])
next
  case False
  assume "i < 100"
  with False have "i div 10 < 10" by simp
  then have "dec_digits i = [48 + i div 10, 48 + i mod 10]"
    using False by (simp add: dec_digits.simps[of i] dec_digits.simps[of "i div 10"])
  then show ?thesis by (simp add: fmt_02d_def)
qed

lemma split_entry_str_title:
  assumes "title ch = JStr x"
  shows "cuts (trace (snd (split_entry env ip n bm i ch (k, w)))) =
           cuts (trace w) @ [(i, cut_command env ip i ch (sanitize_str x),
                              run_cut env (cut_command env ip i ch (sanitize_str x)))]"
  using assms
  by (simp add: split_entry_def sanitize_filename_str Let_def tag_file_def emit_def create_def cuts_append)

text \<open>
  C6 (as amended). On a string title, \<open>sanitize_filename\<close> removes exactly the nine
  characters \<open>< > : " / \ | ? *\<close>, then trims leading and trailing whitespace, then
  keeps the first 200 characters; what is left is a subsequence of the title, so nothing
  is inserted. The output file of entry \<open>i\<close> is named by the decimal index, padded with
  zeros to two digits, an underscore, the sanitized title and \<open>.mp3\<close>. The title
  \<open>Chapter: One/Two?\<close> becomes \<open>Chapter OneTwo\<close>: the space inside is kept.
\<close>

theorem sanitize_filename_spec:
  "sanitize_filename (JStr x) = Inr (sanitize_str x) \<and>
   sanitize_str x = take 200 (strip (filter (\<lambda>c. c \<notin> {60, 62, 58, 34, 47, 92, 124, 63, 42}) x)) \<and>
   (\<forall>s. \<exists>a b. s = a @ strip s @ b \<and> (\<forall>c\<in>set a. is_space c) \<and> (\<forall>c\<in>set b. is_space c) \<and>
      (strip s = [] \<or> \<not> is_space (hd (strip s)) \<and> \<not> is_space (last (strip s)))) \<and>
   subseq (sanitize_str x) x \<and>
   (title ch = JStr x \<longrightarrow>
      cuts (trace (snd (split_entry env ip n bm i ch (k, w)))) =
        cuts (trace w) @ [(i, cut_command env ip i ch (sanitize_str x),
                           run_cut env (cut_command env ip i ch (sanitize_str x)))]) \<and>
   cmd_output (cut_command env ip i ch (sanitize_str x)) =
     path_join (folder_path env) (fmt_02d i @ [95] @ sanitize_str x @ [46, 109, 112, 51]) \<and>
   (i < 100 \<longrightarrow> fmt_02d i = [48 + i div 10, 48 + i mod 10]) \<and>
   sanitize_str (ustr ''Chapter: One/Two?'') = ustr ''Chapter OneTwo''"
proof -
  have 1: "sanitize_str x = take 200 (strip (filter (\<lambda>c. c \<notin> {60, 62, 58, 34, 47, 92, 124, 63, 42}) x))"
    using sanitize_str_take[of x] by (simp add: invalid_chars_def)
  have 2: "\<exists>a b. s = a @ strip s @ b \<and> (\<forall>c\<in>set a. is_space c) \<and> (\<forall>c\<in>set b. is_space c) \<and>
      (strip s = [] \<or> \<not> is_space (hd (strip s)) \<and> \<not> is_space (last (strip s)))" for s
    using strip_decomp[of s] strip_ends[of s] by blast
  have 3: "cmd_output (cut_command env ip i ch (sanitize_str x)) =
     path_join (folder_path env) (fmt_02d i @ [95] @ sanitize_str x @ [46, 109, 112, 51])"
    by (simp add: cut_command_def chapter_filename_def ustr_def)
  have 4: "sanitize_str (ustr ''Chapter: One/Two?'') = ustr ''Chapter OneTwo''"
    by (simp add: sanitize_str_def ustr_def strip_def is_space_def invalid_chars_def)
  show ?thesis
    using 1 2 3 4 sanitize_filename_str sanitize_str_subseq split_entry_str_title fmt_02d_two_digits
    by blast
qed

text \<open>
  C6 as stated fails at its own example: the fragment is not \<open>ChapterOneTwo\<close>.
\<close>

theorem sanitize_example_counterexample:
  "sanitize_filename (JStr (ustr ''Chapter: One/Two?'')) \<noteq> Inr (ustr ''ChapterOneTwo'')"
  by (simp add: sanitize_filename_str sanitize_str_def ustr_def strip_def is_space_def invalid_chars_def)

text \<open>
  C7 (as amended). Sanitizing a sanitized title changes nothing exactly when the
  sanitized title does not end in whitespace; that is so whenever the title, without
  its invalid characters and trimmed, has at most 200 characters.
\<close>

theorem sanitize_idempotent_iff:
  "(sanitize_str (sanitize_str x) = sanitize_str x \<longleftrightarrow>
      sanitize_str x = [] \<or> \<not> is_space (last (sanitize_str x))) \<and>
   (length (strip (filter (\<lambda>c. c \<notin> set invalid_chars) x)) \<le> 200 \<longrightarrow>
      sanitize_str (sanitize_str x) = sanitize_str x) \<and>
   sanitize_filename (JStr x) = Inr (sanitize_str x) \<and>
   sanitize_filename (JStr (sanitize_str x)) = Inr (sanitize_str (sanitize_str x))"
  using sanitize_str_idem_iff[of x] sanitize_str_short[of x] sanitize_filename_str by blast

theorem sanitize_idempotent_iff_witness:
  "length (strip (filter (\<lambda>c. c \<notin> set invalid_chars) (ustr '' a:b ''))) \<le> 200 \<and>
   sanitize_str (sanitize_str (ustr '' a:b '')) = sanitize_str (ustr '' a:b '') \<and>
   \<not> is_space (last (sanitize_str (ustr '' a:b '')))"
proof -
  have h: "length (strip (filter (\<lambda>c. c \<notin> set invalid_chars) (ustr '' a:b ''))) \<le> 200"
    by (simp add: ustr_def strip_def is_space_def invalid_chars_def)
  have n: "sanitize_str (ustr '' a:b '') \<noteq> []"
    by (simp add: sanitize_str_def ustr_def strip_def is_space_def invalid_chars_def)
  from sanitize_idempotent_iff[of "ustr '' a:b ''"] h n show ?thesis by blast
qed

lemma sanitize_str_cut_space:
  assumes ok: "\<forall>c\<in>set a. c \<notin> set invalid_chars \<and> \<not> is_space c" and len: "length a = 199"
  shows "sanitize_str (a @ [32, 98]) = a @ [32]" and "sanitize_str (a @ [32]) = a"
proof -
  have ne: "a \<noteq> []" using len by auto
  then have h: "\<not> is_space (hd a)" and l: "\<not> is_space (last a)" using ok by auto
  have sp: "is_space 32" "\<not> is_space 98" by (simp_all add: is_space_def)
  have v: "32 \<notin> set invalid_chars" "98 \<notin> set invalid_chars" by (simp_all add: invalid_chars_def)
  have f1: "filter (\<lambda>c. c \<notin> set invalid_chars) (a @ [32, 98]) = a @ [32, 98]"
    using ok v by (simp add: filter_id_conv)
  have s1: "strip (a @ [32, 98]) = a @ [32, 98]"
    using ne h sp by (intro strip_fixed) simp
  show "sanitize_str (a @ [32, 98]) = a @ [32]"
    unfolding sanitize_str_take f1 s1 using len by simp
  have f2: "filter (\<lambda>c. c \<notin> set invalid_chars) (a @ [32]) = a @ [32]"
    using ok v by (simp add: filter_id_conv)
  have d1: "dropWhile is_space (a @ [32]) = a @ [32]"
    using ne h by (intro dropWhile_hd) simp_all
  have "rev a \<noteq> []" "\<not> is_space (hd (rev a))" using ne l by (simp_all add: hd_rev)
  then have d2: "dropWhile is_space (rev a) = rev a" by (rule dropWhile_hd)
  have s2: "strip (a @ [32]) = a" using sp by (simp add: strip_def d1 d2)
  show "sanitize_str (a @ [32]) = a"
    unfolding sanitize_str_take f2 s2 using len by simp
qed

text \<open>
  C7 as stated fails when the cut at 200 characters leaves a trailing space: 199
  letters \<open>a\<close>, a space and a \<open>b\<close> give 199 letters and a space, and those give 199
  letters.
\<close>

theorem sanitize_twice_counterexample:
  "sanitize_filename (JStr (replicate 199 97 @ [32, 98])) = Inr (replicate 199 97 @ [32]) \<and>
   sanitize_filename (JStr (replicate 199 97 @ [32])) = Inr (replicate 199 97) \<and>
   replicate 199 97 \<noteq> replicate 199 (97::nat) @ [32]"
proof -
  have "\<forall>c\<in>set (replicate 199 (97::nat)). c \<notin> set invalid_chars \<and> \<not> is_space c"
    by (simp add: invalid_chars_def is_space_def)
  moreover have "length (replicate 199 (97::nat)) = 199" by simp
  ultimately show ?thesis
    using sanitize_str_cut_space[of "replicate 199 97"] by (simp add: sanitize_filename_str)
qed

theorem sanitize_filename_spec_witness:
  "title \<lparr>title = JStr (ustr ''Chapter: One/Two?''), start = JInt 0, duration = 300\<rparr> =
     JStr (ustr ''Chapter: One/Two?'') \<and>
   (7::nat) < 100 \<and> fmt_02d 7 = [48, 55] \<and>
   cuts (trace (snd (split_entry (demo_env JNull) (ustr ''/b/in.mp3'') 9 demo_book 7
     \<lparr>title = JStr (ustr ''Chapter: One/Two?''), start = JInt 0, duration = 300\<rparr>
     (0, demo_world)))) \<noteq> []"
  using sanitize_filename_spec[of "ustr ''Chapter: One/Two?''"
      "\<lparr>title = JStr (ustr ''Chapter: One/Two?''), start = JInt 0, duration = 300\<rparr>"
      "demo_env JNull" "ustr ''/b/in.mp3''" 9 demo_book 7 0 demo_world]
  by simp


section \<open>Seconds from milliseconds\<close>

text \<open>
  For an int below \<open>2 ^ 52\<close> in magnitude, the float quotient by 1000 truncates to the
  same integer as the exact quotient: the rounding error of the division is less than
  the distance of the quotient to the next integer.
\<close>

lemma round_half_even_ge: "of_int m \<le> x \<Longrightarrow> m \<le> round_half_even x"
proof -
  assume "of_int m \<le> x"
  then have "m \<le> \<lfloor>x\<rfloor>" by (simp add: le_floor_iff)
  then show ?thesis unfolding round_half_even_def Let_def by simp
qed

lemma round_half_even_le: "of_int (round_half_even x) \<le> x + 1 / 2"
proof -
  have f: "of_int \<lfloor>x\<rfloor> \<le> x" by simp
  show ?thesis unfolding round_half_even_def Let_def using f
    by (simp split: if_splits) linarith
qed

lemma ilog2_le: assumes "0 < q" "q < 2 ^ 43" shows "ilog2 q \<le> 42"
proof (cases "1 \<le> q")
  case True
  then have pos: "0 < \<lfloor>q\<rfloor>" by linarith
  have "\<lfloor>q\<rfloor> < 2 ^ 43" using assms(2) by (simp add: floor_less_iff)
  with bitlen_bounds[OF pos] have "(2::int) ^ nat (bitlen \<lfloor>q\<rfloor> - 1) < 2 ^ 43" by linarith
  then have "nat (bitlen \<lfloor>q\<rfloor> - 1) < 43" by (rule power_less_imp_less_exp[of 2, rotated]) simp
  then show ?thesis using True by (simp add: ilog2_def)
next
  case False
  then show ?thesis using bitlen_nonneg[of "\<lceil>1 / q\<rceil> - 1"] by (simp add: ilog2_def)
qed

lemma round_mag_scaled:
  assumes "0 < q" "q < 2 ^ 43"
  shows "\<exists>j\<ge>10. round_mag q = of_int (round_half_even (q * 2 ^ j)) / 2 ^ j"
proof -
  define e where "e = max (ilog2 q) (- 1022)"
  have e: "e \<le> 42" using ilog2_le[OF assms] by (simp add: e_def)
  define j where "j = nat (52 - e)"
  have j: "10 \<le> j" using e by (simp add: j_def)
  have "pow2 (e - 52) = 1 / 2 ^ j" using e by (simp add: pow2_def j_def)
  then have "round_mag q = of_int (round_half_even (q * 2 ^ j)) / 2 ^ j"
    using assms(1) by (simp add: round_mag_def e_def Let_def)
  with j show ?thesis by blast
qed


lemma floor_round_mag_div_1000:
  assumes "0 \<le> n" "n < 2 ^ 52"
  shows "\<lfloor>round_mag (of_int n / 1000)\<rfloor> = n div 1000"
proof (cases "n = 0")
  case True
  then show ?thesis by (simp add: round_mag_def)
next
  case False
  define q :: rat where "q = of_int n / 1000"
  define k where "k = n div 1000"
  have n: "n = 1000 * k + n mod 1000" by (simp add: k_def)
  have qpos: "0 < q" using False assms(1) by (simp add: q_def)
  have "(of_int n :: rat) < 2 ^ 52" using assms(2) by simp
  then have qlt: "q < 2 ^ 43" by (simp add: q_def)
  from round_mag_scaled[OF qpos qlt] obtain j where j: "10 \<le> j"
    and rm: "round_mag q = of_int (round_half_even (q * 2 ^ j)) / 2 ^ j" by blast
  define R where "R = round_half_even (q * 2 ^ j)"
  have "(of_int n :: rat) = 1000 * of_int k + of_int (n mod 1000)"
    by (metis n of_int_add of_int_mult of_int_numeral)
  then have qk: "q = of_int k + of_int (n mod 1000) / 1000" by (simp add: q_def)
  have "(0::rat) \<le> of_int (n mod 1000)" by simp
  then have kq: "of_int k \<le> q" by (simp add: qk)
  have "n mod 1000 \<le> 999" using pos_mod_bound[of 1000 n] by simp
  then have "(of_int (n mod 1000) :: rat) \<le> 999" by simp
  then have qk1: "q \<le> of_int k + 999 / 1000" by (simp add: qk)
  have p: "(0::rat) < 2 ^ j" by simp
  have "of_int (k * 2 ^ j) \<le> q * 2 ^ j" using kq p by simp
  then have lo: "k * 2 ^ j \<le> R" unfolding R_def by (rule round_half_even_ge)
  have hi: "of_int R \<le> q * 2 ^ j + 1 / 2" unfolding R_def by (rule round_half_even_le)
  have "(2::rat) ^ 10 \<le> 2 ^ j" using j by (rule power_increasing) simp
  then have big: "(1024::rat) \<le> 2 ^ j" by simp
  have "of_int k \<le> of_int R / (2::rat) ^ j"
    using lo p by (simp add: pos_le_divide_eq flip: of_int_le_iff[where ?'a = rat])
  moreover have "of_int R / (2::rat) ^ j < of_int k + 1"
  proof -
    have "of_int R / (2::rat) ^ j \<le> (q * 2 ^ j + 1 / 2) / 2 ^ j"
      using hi p by (simp add: divide_right_mono)
    also have "\<dots> = q + 1 / (2 * 2 ^ j)" using p by (simp add: field_simps)
    also have "\<dots> \<le> q + 1 / 2048"
      using big by (simp add: field_simps)
    also have "\<dots> < of_int k + 1" using qk1 by simp
    finally show ?thesis .
  qed
  ultimately have "\<lfloor>of_int R / (2::rat) ^ j\<rfloor> = k" by (simp add: floor_unique)
  then show ?thesis using rm by (simp add: q_def R_def k_def)
qed

lemma round_mag_div_1000_less:
  assumes "0 \<le> n" "n < 2 ^ 52"
  shows "0 \<le> round_mag (of_int n / 1000)" and "round_mag (of_int n / 1000) < 2 ^ 52"
proof -
  let ?r = "round_mag (of_int n / 1000)"
  have fl: "\<lfloor>?r\<rfloor> = n div 1000" using assms by (rule floor_round_mag_div_1000)
  have "0 \<le> n div 1000" using assms(1) by simp
  then have "0 \<le> \<lfloor>?r\<rfloor>" using fl by simp
  then show "0 \<le> ?r" by simp
  have "n div 1000 \<le> n div 1" using assms(1) by (intro zdiv_mono2) simp_all
  then have "n div 1000 \<le> n" by simp
  then have "\<lfloor>?r\<rfloor> + 1 \<le> 2 ^ 52" using fl assms(2) by simp
  then have "of_int (\<lfloor>?r\<rfloor> + 1) \<le> (2 ^ 52 :: rat)"
    by (metis of_int_le_iff of_int_numeral of_int_power)
  moreover have "?r < of_int (\<lfloor>?r\<rfloor> + 1)" by linarith
  ultimately show "?r < 2 ^ 52" by linarith
qed

lemma div_1000_int:
  assumes "\<bar>n\<bar> < 2 ^ 52"
  shows "\<exists>f. div_1000 (JInt n) = Inr f \<and>
             py_int f = Inr (if 0 \<le> n then n div 1000 else - ((- n) div 1000))"
proof (cases "0 \<le> n")
  case True
  let ?r = "round_mag (of_int n / 1000)"
  have n: "n < 2 ^ 52" using assms by simp
  have rd: "round_double (of_int n / 1000) = ?r" using True by (simp add: round_double_def)
  have b: "0 \<le> ?r" "?r < 2 ^ 52" using round_mag_div_1000_less[OF True n] by simp_all
  have "(2::rat) ^ 52 \<le> 2 ^ 1024" by (rule power_increasing) simp_all
  with b have "\<not> 2 ^ 1024 \<le> \<bar>?r\<bar>" by linarith
  then have "div_1000 (JInt n) = Inr (Finite ?r)" by (simp add: int_truediv_def rd Let_def)
  moreover have "py_int (Finite ?r) = Inr (n div 1000)"
    using b(1) floor_round_mag_div_1000[OF True n] by (simp add: trunc_rat_def)
  ultimately show ?thesis using True by simp
next
  case False
  let ?r = "round_mag (of_int (- n) / 1000)"
  have p: "0 \<le> - n" and n: "- n < 2 ^ 52" using False assms by simp_all
  have "(of_int n :: rat) / 1000 < 0" using False by simp
  then have rd: "round_double (of_int n / 1000) = - ?r" by (simp add: round_double_def)
  have b: "0 \<le> ?r" "?r < 2 ^ 52" using round_mag_div_1000_less[OF p n] by simp_all
  have "(2::rat) ^ 52 \<le> 2 ^ 1024" by (rule power_increasing) simp_all
  with b have "\<not> 2 ^ 1024 \<le> \<bar>- ?r\<bar>" by linarith
  then have "div_1000 (JInt n) = Inr (Finite (- ?r))" by (simp add: int_truediv_def rd Let_def)
  moreover have "py_int (Finite (- ?r)) = Inr (- ((- n) div 1000))"
  proof (cases "?r = 0")
    case True
    with floor_round_mag_div_1000[OF p n] show ?thesis by (simp add: trunc_rat_def)
  next
    case False
    with b(1) have "- ?r < 0" by simp
    then show ?thesis using floor_round_mag_div_1000[OF p n] by (simp add: trunc_rat_def)
  qed
  ultimately show ?thesis using False by simp
qed

lemma int_truediv_zero: "int_truediv 0 1000 = Inr (Finite 0)"
  by (simp add: int_truediv_def round_double_def round_mag_def)

lemma process_chapter_Inr:
  "process_chapter raw = Inr p \<longleftrightarrow>
     (\<exists>d f. raw = JObj d \<and> div_1000 (dict_get d ''lengthMs'' (JInt 0)) = Inr f \<and>
            py_int f = Inr (duration p) \<and>
            p = \<lparr>title = dict_get d ''title'' (JStr (ustr ''Unknown'')),
                 start = dict_get d ''startOffsetSec'' (JInt 0), duration = duration p\<rparr>)"
  by (cases raw) (auto simp: process_chapter_def split: sum.splits)

lemma process_loop_Inr:
  "process_loop acc raws = Inr ps \<longleftrightarrow>
     (\<exists>qs. ps = acc @ qs \<and> list_all2 (\<lambda>r q. process_chapter r = Inr q) raws qs)"
proof (induction raws arbitrary: acc)
  case Nil
  then show ?case by auto
next
  case (Cons r rs)
  show ?case
  proof (cases "process_chapter r")
    case (Inl e)
    then show ?thesis by (auto simp: list_all2_Cons1)
  next
    case (Inr q)
    then show ?thesis by (auto simp: Cons.IH list_all2_Cons1)
  qed
qed

lemma fetch_chapters_Some:
  assumes "console env asin"
    and "http_chapters env asin = Answer (JObj data) shown"
    and "map_of data (ustr ''chapters'') = Some (JArr raws)"
  shows "fst (fetch_chapters env asin w) = Inr (Some ps) \<longleftrightarrow>
           list_all2 (\<lambda>r q. process_chapter r = Inr q) raws ps \<and>
           console env (JArr (table_data ps))"
proof (cases "process_loop [] raws")
  case (Inl e)
  then have "\<not> list_all2 (\<lambda>r q. process_chapter r = Inr q) raws ps"
    using process_loop_Inr[of "[]" raws ps] by simp
  then show ?thesis using assms Inl
    by (simp add: fetch_chapters_def Let_def chapters_handler_def)
next
  case (Inr qs)
  then have "list_all2 (\<lambda>r q. process_chapter r = Inr q) raws ps \<longleftrightarrow> qs = ps"
    using process_loop_Inr[of "[]" raws ps] by auto
  then show ?thesis using assms Inr
    by (auto simp: fetch_chapters_def Let_def chapters_handler_def)
qed

lemma floor_long: "\<lfloor>(2999999999999999999::rat) / 1000\<rfloor> = 2999999999999999"
  by (rule floor_unique) simp_all

lemma round_double_long: "round_double (2999999999999999999 / 1000) = 3000000000000000"
proof -
  note fl = floor_long
  have bl: "bitlen 2999999999999999 = 52" by (simp add: compute_bitlen)
  have il: "ilog2 (2999999999999999999 / 1000) = 51" by (simp add: ilog2_def bl fl)
  have fl2: "\<lfloor>(2999999999999999999::rat) / 500\<rfloor> = 5999999999999999"
    by (rule floor_unique) simp_all
  have rhe: "round_half_even (2999999999999999999 / 500) = 6000000000000000"
    by (simp add: round_half_even_def Let_def fl2)
  show ?thesis by (simp add: round_double_def round_mag_def il pow2_def rhe)
qed

section \<open>The processed chapter list\<close>

text \<open>
  C10 as stated fails on the duration: for a \<open>lengthMs\<close> of 2999999999999999999 the
  quotient by 1000 truncates to 2999999999999999, and the processed duration is
  3000000000000000, because \<open>lengthMs / 1000\<close> is a float and the division rounds up
  to the next integer before \<open>int\<close> truncates.
\<close>

theorem duration_rounding_counterexample:
  "fst (fetch_chapters (demo_env (JArr [long_chapter])) (JStr (ustr ''B0'')) demo_world) =
     Inr (Some [\<lparr>title = JStr (ustr ''Long''), start = JInt 0, duration = 3000000000000000\<rparr>]) \<and>
   trunc_rat (2999999999999999999 / 1000) = 2999999999999999"
  by (simp add: fetch_chapters_def demo_env_def long_chapter_def raw_chapter_def Let_def
      process_chapter_def dict_get_def ustr_def int_truediv_def round_double_long trunc_rat_def
      floor_long)

text \<open>
  C10 (as amended). Let the chapters endpoint answer with a dict whose \<open>chapters\<close> entry
  is a list. The lists \<open>fetch_chapters\<close> can return are characterized: it returns
  \<open>ps\<close> exactly when \<open>ps\<close> has one entry for each raw chapter, in the same order,
  each raw chapter is a dict, the start of the entry is the raw \<open>startOffsetSec\<close> as it
  came (0 if absent), its title the raw \<open>title\<close> (\<open>Unknown\<close> if absent), its duration
  the truncation to an integer of the float quotient of \<open>lengthMs\<close> (0 if absent) by
  1000, and the console prints the table of \<open>ps\<close>. The duration is 0 if \<open>lengthMs\<close>
  is absent and, for an int below \<open>2 ^ 52\<close> in magnitude, the exact quotient truncated
  towards zero. When every raw chapter is a dict whose \<open>lengthMs\<close> is absent or such an
  int, there is such a list, returned exactly when its table prints.
\<close>

theorem fetch_chapters_entries:
  assumes "console env asin"
    and "http_chapters env asin = Answer (JObj data) shown"
    and "map_of data (ustr ''chapters'') = Some (JArr raws)"
  shows "(fst (fetch_chapters env asin w) = Inr (Some ps) \<longleftrightarrow>
            length ps = length raws \<and> console env (JArr (table_data ps)) \<and>
            (\<forall>i<length raws. \<exists>d f.
               raws ! i = JObj d \<and>
               title (ps ! i) = dict_get d ''title'' (JStr (ustr ''Unknown'')) \<and>
               start (ps ! i) = dict_get d ''startOffsetSec'' (JInt 0) \<and>
               div_1000 (dict_get d ''lengthMs'' (JInt 0)) = Inr f \<and>
               py_int f = Inr (duration (ps ! i)))) \<and>
         (fst (fetch_chapters env asin w) = Inr (Some ps) \<longrightarrow>
            (\<forall>i<length raws. \<forall>d. raws ! i = JObj d \<longrightarrow>
               (map_of d (ustr ''lengthMs'') = None \<longrightarrow> duration (ps ! i) = 0) \<and>
               (\<forall>n. map_of d (ustr ''lengthMs'') = Some (JInt n) \<and> \<bar>n\<bar> < 2 ^ 52 \<longrightarrow>
                    duration (ps ! i) = (if 0 \<le> n then n div 1000 else - ((- n) div 1000))))) \<and>
         ((\<forall>r\<in>set raws. \<exists>d. r = JObj d \<and>
              (map_of d (ustr ''lengthMs'') = None \<or>
               (\<exists>n. map_of d (ustr ''lengthMs'') = Some (JInt n) \<and> \<bar>n\<bar> < 2 ^ 52))) \<longrightarrow>
            (\<exists>qs. length qs = length raws \<and>
                  (fst (fetch_chapters env asin w) = Inr (Some qs) \<longleftrightarrow>
                     console env (JArr (table_data qs)))))"
proof (intro conjI impI)
  let ?entry = "\<lambda>r p. \<exists>d f.
               r = JObj d \<and>
               title p = dict_get d ''title'' (JStr (ustr ''Unknown'')) \<and>
               start p = dict_get d ''startOffsetSec'' (JInt 0) \<and>
               div_1000 (dict_get d ''lengthMs'' (JInt 0)) = Inr f \<and>
               py_int f = Inr (duration p)"
  have entry: "process_chapter r = Inr p \<longleftrightarrow> ?entry r p" for r p
  proof
    assume "process_chapter r = Inr p"
    then obtain d f where d: "r = JObj d"
      and f: "div_1000 (dict_get d ''lengthMs'' (JInt 0)) = Inr f"
      and pf: "py_int f = Inr (duration p)"
      and p: "p = \<lparr>title = dict_get d ''title'' (JStr (ustr ''Unknown'')),
                 start = dict_get d ''startOffsetSec'' (JInt 0), duration = duration p\<rparr>"
      unfolding process_chapter_Inr by blast
    have t: "title p = dict_get d ''title'' (JStr (ustr ''Unknown''))" by (subst p) simp
    have s: "start p = dict_get d ''startOffsetSec'' (JInt 0)" by (subst p) simp
    show "?entry r p" by (intro exI[of _ d] exI[of _ f] conjI) (fact d t s f pf)+
  next
    assume "?entry r p"
    then obtain d f where d: "r = JObj d"
      and t: "title p = dict_get d ''title'' (JStr (ustr ''Unknown''))"
      and s: "start p = dict_get d ''startOffsetSec'' (JInt 0)"
      and f: "div_1000 (dict_get d ''lengthMs'' (JInt 0)) = Inr f"
      and pf: "py_int f = Inr (duration p)" by blast
    have "p = \<lparr>title = dict_get d ''title'' (JStr (ustr ''Unknown'')),
                 start = dict_get d ''startOffsetSec'' (JInt 0), duration = duration p\<rparr>"
      using t s by simp
    then show "process_chapter r = Inr p"
      unfolding process_chapter_Inr using d f pf by blast
  qed
  show "fst (fetch_chapters env asin w) = Inr (Some ps) \<longleftrightarrow>
            length ps = length raws \<and> console env (JArr (table_data ps)) \<and>
            (\<forall>i<length raws. ?entry (raws ! i) (ps ! i))"
    unfolding fetch_chapters_Some[OF assms] list_all2_conv_all_nth entry by auto
next
  assume "fst (fetch_chapters env asin w) = Inr (Some ps)"
  then have all2: "list_all2 (\<lambda>r q. process_chapter r = Inr q) raws ps"
    using fetch_chapters_Some[OF assms] by simp
  show "\<forall>i<length raws. \<forall>d. raws ! i = JObj d \<longrightarrow>
               (map_of d (ustr ''lengthMs'') = None \<longrightarrow> duration (ps ! i) = 0) \<and>
               (\<forall>n. map_of d (ustr ''lengthMs'') = Some (JInt n) \<and> \<bar>n\<bar> < 2 ^ 52 \<longrightarrow>
                    duration (ps ! i) = (if 0 \<le> n then n div 1000 else - ((- n) div 1000)))"
  proof (intro allI impI conjI)
    fix i d assume i: "i < length raws" and d: "raws ! i = JObj d"
    have "process_chapter (JObj d) = Inr (ps ! i)" using list_all2_nthD[OF all2 i] d by simp
    then obtain f where f: "div_1000 (dict_get d ''lengthMs'' (JInt 0)) = Inr f"
      and pf: "py_int f = Inr (duration (ps ! i))"
      unfolding process_chapter_Inr by blast
    {
      assume "map_of d (ustr ''lengthMs'') = None"
      then show "duration (ps ! i) = 0"
        using f pf by (auto simp: dict_get_def int_truediv_zero trunc_rat_def)
    }
    {
      fix n assume that: "map_of d (ustr ''lengthMs'') = Some (JInt n) \<and> \<bar>n\<bar> < 2 ^ 52"
      then have g: "dict_get d ''lengthMs'' (JInt 0) = JInt n" by (simp add: dict_get_def)
      from that div_1000_int[of n] obtain f' where "div_1000 (JInt n) = Inr f'"
        and "py_int f' = Inr (if 0 \<le> n then n div 1000 else - ((- n) div 1000))" by blast
      with f pf g show "duration (ps ! i) = (if 0 \<le> n then n div 1000 else - ((- n) div 1000))"
        by simp
    }
  qed
next
  assume wf: "\<forall>r\<in>set raws. \<exists>d. r = JObj d \<and>
              (map_of d (ustr ''lengthMs'') = None \<or>
               (\<exists>n. map_of d (ustr ''lengthMs'') = Some (JInt n) \<and> \<bar>n\<bar> < 2 ^ 52))"
  have ex: "\<exists>q. process_chapter r = Inr q" if "r \<in> set raws" for r
  proof -
    from wf that obtain d where d: "r = JObj d"
      and l: "map_of d (ustr ''lengthMs'') = None \<or>
               (\<exists>n. map_of d (ustr ''lengthMs'') = Some (JInt n) \<and> \<bar>n\<bar> < 2 ^ 52)" by blast
    from l obtain n where g: "dict_get d ''lengthMs'' (JInt 0) = JInt n" and n: "\<bar>n\<bar> < 2 ^ 52"
      by (auto simp: dict_get_def)
    from div_1000_int[OF n] obtain f k where "div_1000 (JInt n) = Inr f" "py_int f = Inr k" by blast
    then show ?thesis by (simp add: d process_chapter_def g)
  qed
  have "\<exists>qs. list_all2 (\<lambda>r q. process_chapter r = Inr q) rs qs" if "set rs \<subseteq> set raws" for rs
    using that
  proof (induction rs)
    case Nil then show ?case by simp
  next
    case (Cons r rs)
    then obtain qs where "list_all2 (\<lambda>r q. process_chapter r = Inr q) rs qs" by auto
    moreover from Cons.prems ex obtain q where "process_chapter r = Inr q" by auto
    ultimately have "list_all2 (\<lambda>r q. process_chapter r = Inr q) (r # rs) (q # qs)" by simp
    then show ?case by blast
  qed
  then obtain qs where q: "list_all2 (\<lambda>r q. process_chapter r = Inr q) raws qs" by blast
  then have "length qs = length raws" by (simp add: list_all2_lengthD)
  moreover have "fst (fetch_chapters env asin w) = Inr (Some qs) \<longleftrightarrow>
                     console env (JArr (table_data qs))"
    using fetch_chapters_Some[OF assms] q by simp
  ultimately show "\<exists>qs. length qs = length raws \<and>
                  (fst (fetch_chapters env asin w) = Inr (Some qs) \<longleftrightarrow>
                     console env (JArr (table_data qs)))" by blast
qed

theorem fetch_chapters_entries_witness:
  "console (demo_env (JArr three_chapters)) (JStr (ustr ''B0'')) \<and>
   http_chapters (demo_env (JArr three_chapters)) (JStr (ustr ''B0'')) =
     Answer (JObj [(ustr ''chapters'', JArr three_chapters)]) True \<and>
   map_of [(ustr ''chapters'', JArr three_chapters)] (ustr ''chapters'') =
     Some (JArr three_chapters) \<and>
   list_all (\<lambda>r. \<exists>d. r = JObj d \<and>
      (map_of d (ustr ''lengthMs'') = None \<or>
       (\<exists>n. map_of d (ustr ''lengthMs'') = Some (JInt n) \<and> \<bar>n\<bar> < 2 ^ 52)))
     three_chapters \<and>
   (\<exists>qs. fst (fetch_chapters (demo_env (JArr three_chapters)) (JStr (ustr ''B0'')) demo_world) =
            Inr (Some qs) \<and>
         console (demo_env (JArr three_chapters)) (JArr (table_data qs)) \<and>
         length qs = 3 \<and> map duration qs = [300, 0, - 1] \<and>
         title (qs ! 1) = JStr (ustr ''Unknown'') \<and> start (qs ! 1) = JInt 300)"
proof -
  let ?env = "demo_env (JArr three_chapters)"
  have 0: "console ?env (JStr (ustr ''B0''))" by (simp add: demo_env_def)
  have 1: "http_chapters ?env (JStr (ustr ''B0'')) =
     Answer (JObj [(ustr ''chapters'', JArr three_chapters)]) True" by (simp add: demo_env_def)
  have 2: "map_of [(ustr ''chapters'', JArr three_chapters)] (ustr ''chapters'') =
     Some (JArr three_chapters)"
    by simp
  have 3: "\<forall>r\<in>set three_chapters. \<exists>d. r = JObj d \<and>
              (map_of d (ustr ''lengthMs'') = None \<or>
               (\<exists>n. map_of d (ustr ''lengthMs'') = Some (JInt n) \<and> \<bar>n\<bar> < 2 ^ 52))"
    by (simp add: three_chapters_def raw_chapter_def ustr_def)
  note T = fetch_chapters_entries[OF 0 1 2, of demo_world]
  from T 3 obtain qs where "fst (fetch_chapters ?env (JStr (ustr ''B0'')) demo_world) = Inr (Some qs) \<longleftrightarrow>
      console ?env (JArr (table_data qs))" by blast
  moreover have c: "console ?env (JArr (table_data qs))" by (simp add: demo_env_def)
  ultimately have q: "fst (fetch_chapters ?env (JStr (ustr ''B0'')) demo_world) = Inr (Some qs)"
    by simp
  from T[of qs] q have len: "length qs = length three_chapters"
    and each: "\<forall>i<length three_chapters. \<exists>d f.
               three_chapters ! i = JObj d \<and>
               title (qs ! i) = dict_get d ''title'' (JStr (ustr ''Unknown'')) \<and>
               start (qs ! i) = dict_get d ''startOffsetSec'' (JInt 0) \<and>
               div_1000 (dict_get d ''lengthMs'' (JInt 0)) = Inr f \<and>
               py_int f = Inr (duration (qs ! i))"
    and exact: "\<forall>i<length three_chapters. \<forall>d. three_chapters ! i = JObj d \<longrightarrow>
               (map_of d (ustr ''lengthMs'') = None \<longrightarrow> duration (qs ! i) = 0) \<and>
               (\<forall>n. map_of d (ustr ''lengthMs'') = Some (JInt n) \<and> \<bar>n\<bar> < 2 ^ 52 \<longrightarrow>
                    duration (qs ! i) = (if 0 \<le> n then n div 1000 else - ((- n) div 1000)))"
    by blast+
  have n3: "length three_chapters = 3" by (simp add: three_chapters_def)
  have l3: "length qs = 3" using len n3 by simp
  have "three_chapters ! 0 = raw_chapter ''Intro'' 0 300999" by (simp add: three_chapters_def)
  with exact[rule_format, of 0] have d0: "duration (qs ! 0) = 300"
    by (simp add: n3 raw_chapter_def ustr_def)
  have r1: "three_chapters ! 1 = JObj [(ustr ''startOffsetSec'', JInt 300)]"
    by (simp add: three_chapters_def)
  with exact[rule_format, of 1] have d1: "duration (qs ! 1) = 0"
    by (simp add: n3 ustr_def)
  from each[rule_format, of 1] r1 have e1:
      "title (qs ! 1) = JStr (ustr ''Unknown'') \<and> start (qs ! 1) = JInt 300"
    by (auto simp: n3 ustr_def dict_get_def)
  have "three_chapters ! 2 = raw_chapter ''End'' 1200 (- 1500)"
    by (simp add: three_chapters_def)
  with exact[rule_format, of 2] have d2: "duration (qs ! 2) = - 1"
    by (simp add: n3 raw_chapter_def ustr_def)
  have md: "map duration qs = [300, 0, - 1]"
    using l3 d0 d1 d2
    by (intro nth_equalityI) (auto simp: less_Suc_eq numeral_3_eq_3 numeral_2_eq_2)
  have t1: "title (qs ! 1) = JStr (ustr ''Unknown'')" and s1: "start (qs ! 1) = JInt 300"
    using e1 by simp_all
  have h3: "list_all (\<lambda>r. \<exists>d. r = JObj d \<and>
      (map_of d (ustr ''lengthMs'') = None \<or>
       (\<exists>n. map_of d (ustr ''lengthMs'') = Some (JInt n) \<and> \<bar>n\<bar> < 2 ^ 52)))
     three_chapters" using 3 by (simp only: list_all_iff)
  show ?thesis
    by (intro conjI exI[of _ qs]) (fact 0 1 2 h3 q c l3 md t1 s1)+
qed

section \<open>The sweep over the chapters\<close>





















lemmas eval_defs = split_by_chapters_def split_entry_def Let_def sanitize_filename_str
  sanitize_str_def strip_def is_space_def invalid_chars_def cut_command_def chapter_filename_def
  fmt_02d_two_digits path_join_def ustr_def tag_file_def emit_def create_def





lemma demo_mp3_files: "get_mp3_files (demo_env c) = [ustr ''part1.mp3'', ustr ''part2.mp3'']"
  by (simp add: get_mp3_files_def demo_env_def lower_endswith_mp3_def ustr_def)

lemma round_double_900: "round_double 900 = 900" and round_double_1800: "round_double 1800 = 1800"
  and round_double_30: "round_double 30 = 30"
  by (simp_all add: round_double_def round_mag_def ilog2_def pow2_def round_half_even_def Let_def
      compute_bitlen)

lemma demo_total:
  "calculate_total_duration (demo_env c) [ustr ''part1.mp3'', ustr ''part2.mp3''] = Some 1800"
  by (simp add: calculate_total_duration_def demo_env_def round_double_900 round_double_1800)






lemma process_chapter_no_length:
  assumes "dict_get d ''lengthMs'' (JInt 0) \<in> {JInt 0, JFloat (Finite 0), JBool False}"
  shows "process_chapter (JObj d) =
           Inr \<lparr>title = dict_get d ''title'' (JStr (ustr ''Unknown'')),
                start = dict_get d ''startOffsetSec'' (JInt 0), duration = 0\<rparr>"
proof -
  from assms have "div_1000 (dict_get d ''lengthMs'' (JInt 0)) = Inr (Finite 0)"
    by (auto simp: int_truediv_zero round_double_def round_mag_def)
  then show ?thesis by (simp add: process_chapter_def trunc_rat_def)
qed




section \<open>What each stage does to the trace and to the files\<close>


lemma acts_append: "acts (xs @ ys) = acts xs @ acts ys"
  by (induction xs rule: acts.induct) simp_all











lemma fetch_book_metadata_effect:
  assumes "fetch_book_metadata env md w = (found, w1)"
  shows "files w1 = files w" and "\<exists>evs. trace w1 = trace w @ evs \<and> acts evs = []"
  using assms
  by (auto simp: fetch_book_metadata_def emit_def Let_def split: http_outcome.splits if_splits)

lemma fetch_chapters_effect:
  assumes "fetch_chapters env asin w1 = (fetched, w2)"
  shows "files w2 = files w1" and "\<exists>evs. trace w2 = trace w1 @ evs \<and> acts evs = []"
proof -
  have "w2 = w1 \<or> w2 = emit (GetChapters asin) w1"
    using assms
    by (auto simp: fetch_chapters_def Let_def
        split: http_outcome.splits option.splits sum.splits if_splits)
  then have "files w2 = files w1 \<and> (\<exists>evs. trace w2 = trace w1 @ evs \<and> acts evs = [])"
  proof
    assume "w2 = w1"
    then have "trace w2 = trace w1 @ [] \<and> acts [] = []" by simp
    then show ?thesis using \<open>w2 = w1\<close> by blast
  next
    assume e: "w2 = emit (GetChapters asin) w1"
    then have "trace w2 = trace w1 @ [GetChapters asin] \<and> acts [GetChapters asin] = []"
      by (simp add: emit_def)
    then show ?thesis using e by (auto simp: emit_def)
  qed
  then show "files w2 = files w1" and "\<exists>evs. trace w2 = trace w1 @ evs \<and> acts evs = []"
    by simp_all
qed

lemma process_folder_cases:
  assumes "process_folder env w = (ok, w')"
  shows "(\<not> ok \<and> files w' = files w \<and> (\<exists>evs. trace w' = trace w @ evs \<and> acts evs = [])) \<or>
         (\<exists>cs bm asin w1 w2 evs. cs \<noteq> [] \<and> get_mp3_files env \<noteq> [] \<and>
             fst (fetch_chapters env asin w1) = Inr (Some cs) \<and>
             files w2 = files w \<and> trace w2 = trace w @ evs \<and> acts evs = [] \<and>
             split_and_cleanup env (get_mp3_files env) cs bm w2 = (ok, w'))"
proof -
  let ?early = "\<lambda>v. \<not> ok \<and> files w' = files w \<and> (\<exists>evs. trace w' = trace w @ evs \<and> acts evs = [])"
  have same: "?early ()" if "process_folder env w = (False, w)"
    using that assms by auto
  show ?thesis
  proof (cases "get_mp3_files env = []")
    case True
    then have "process_folder env w = (False, w)" by (simp add: process_folder_def)
    then show ?thesis using same by blast
  next
    case files: False
    let ?first = "path_join (folder_path env) (hd (get_mp3_files env))"
    show ?thesis
    proof (cases "get_metadata_from_file env ?first")
      case None
      then have "process_folder env w = (False, w)" using files by (simp add: process_folder_def)
      then show ?thesis using same by blast
    next
      case md0: (Some metadata0)
      show ?thesis
      proof (cases "calculate_total_duration env (get_mp3_files env)")
        case None
        then have "process_folder env w = (False, w)"
          using files md0 by (simp add: process_folder_def)
        then show ?thesis using same by blast
      next
        case dur: (Some total_duration)
        let ?md = "dict_set metadata0 ''lengthMinutes''
                     (JInt (trunc_rat (round_double (total_duration / 60))))"
        obtain found w1 where fb: "fetch_book_metadata env ?md w = (found, w1)"
          by (cases "fetch_book_metadata env ?md w")
        from fetch_book_metadata_effect[OF fb] obtain e1 where
          f1: "files w1 = files w" and t1: "trace w1 = trace w @ e1" and a1: "acts e1 = []"
          by auto
        have at1: "?early ()" if "process_folder env w = (False, w1)"
          using that assms f1 t1 a1 by auto
        note start = files md0 dur fb
        show ?thesis
        proof (cases "\<exists>book_metadata. found = Inr (Some book_metadata)")
          case False
          then have "process_folder env w = (False, w1)"
            using start by (auto simp: process_folder_def Let_def split: sum.splits option.splits)
          then show ?thesis using at1 by blast
        next
          case True
          then obtain book_metadata where book: "found = Inr (Some book_metadata)" by blast
          show ?thesis
          proof (cases "truthy book_metadata \<and> (\<exists>bm asin. book_metadata = JObj bm \<and>
                          map_of bm (ustr ''asin'') = Some asin)")
            case False
            have "process_folder env w = (False, w1)"
            proof (cases book_metadata)
              case (JObj bm)
              with False have "\<not> truthy book_metadata \<or> map_of bm (ustr ''asin'') = None" by auto
              then show ?thesis
                using start book JObj by (auto simp: process_folder_def Let_def)
            qed (use start book in \<open>simp_all add: process_folder_def Let_def\<close>)
            then show ?thesis using at1 by blast
          next
            case True
            then obtain bm asin where tr: "truthy book_metadata" and bo: "book_metadata = JObj bm"
              and asin: "map_of bm (ustr ''asin'') = Some asin" by blast
            obtain fetched w2 where fc: "fetch_chapters env asin w1 = (fetched, w2)"
              by (cases "fetch_chapters env asin w1")
            from fetch_chapters_effect[OF fc] obtain e2 where
              f2': "files w2 = files w1" and t2': "trace w2 = trace w1 @ e2" and a2': "acts e2 = []"
              by auto
            have f2: "files w2 = files w" and t2: "trace w2 = trace w @ (e1 @ e2)"
              and a2: "acts (e1 @ e2) = []"
              using f2' t2' a2' f1 t1 a1 by (simp_all add: acts_append)
            have at2: "?early ()" if "process_folder env w = (False, w2)"
              using that assms f2 t2 a2 by auto
            have tr': "truthy (JObj bm)" using tr bo by simp
            note mid = start book bo asin fc
            show ?thesis
            proof (cases "\<exists>cs. fetched = Inr (Some cs)")
              case False
              then have "process_folder env w = (False, w2)"
                using mid tr'
                by (auto simp: process_folder_def Let_def split: sum.splits option.splits)
              then show ?thesis using at2 by blast
            next
              case True
              then obtain cs where Some: "fetched = Inr (Some cs)" by blast
              show ?thesis
              proof (cases "cs = []")
                case True
                then have "process_folder env w = (False, w2)"
                  using mid tr' Some by (simp add: process_folder_def Let_def)
                then show ?thesis using at2 by blast
              next
                case False
                then have "process_folder env w =
                    split_and_cleanup env (get_mp3_files env) cs book_metadata w2"
                  using mid tr' Some by (simp add: process_folder_def Let_def)
                with assms have "split_and_cleanup env (get_mp3_files env) cs book_metadata w2 =
                    (ok, w')" by simp
                moreover have "fst (fetch_chapters env asin w1) = Inr (Some cs)"
                  using fc Some by simp
                ultimately show ?thesis using False files f2 t2 a2 by blast
              qed
            qed
          qed
        qed
      qed
    qed
  qed
qed

section \<open>The demonstration session, stage by stage\<close>

lemma demo_fields:
  "folder_path (demo_env c) = ustr ''/b''"
  "listdir (demo_env c) = Some [ustr ''part2.mp3'', ustr ''notes.txt'', ustr ''part1.mp3'']"
  "read_tags (demo_env c) = (\<lambda>p. NoTags)"
  "mp3_length (demo_env c) = (\<lambda>p. Some 900)"
  "http_search (demo_env c) = (\<lambda>t a r. Answer (JArr [demo_book]) True)"
  "get_user_choice (demo_env c) = (\<lambda>results. Some demo_book)"
  "manual_search (demo_env c) = None"
  "http_chapters (demo_env c) = (\<lambda>asin. Answer (JObj [(ustr ''chapters'', c)]) True)"
  "write_manifest (demo_env c) = (\<lambda>p ls. ManifestOk)"
  "run_concat (demo_env c) = (\<lambda>ls p. Exit 0)"
  "run_cut (demo_env c) = (\<lambda>c. Exit 0)"
  "tag_ok (demo_env c) = (\<lambda>p c i n b. True)"
  "remove_ok (demo_env c) = (\<lambda>p. True)"
  "console (demo_env c) = (\<lambda>v. True)"
  by (simp_all add: demo_env_def)

lemma total_loop_cong:
  "folder_path e' = folder_path e \<Longrightarrow> mp3_length e' = mp3_length e \<Longrightarrow>
     total_loop e' t fs = total_loop e t fs"
  by (induction fs arbitrary: t) (simp_all split: option.splits)

lemma run_cut_irrelevant:
  "get_mp3_files (env\<lparr>run_cut := f\<rparr>) = get_mp3_files env"
  "calculate_total_duration (env\<lparr>run_cut := f\<rparr>) fs = calculate_total_duration env fs"
  "get_metadata_from_file (env\<lparr>run_cut := f\<rparr>) p = get_metadata_from_file env p"
  "fetch_book_metadata (env\<lparr>run_cut := f\<rparr>) md w = fetch_book_metadata env md w"
  "fetch_chapters (env\<lparr>run_cut := f\<rparr>) asin w = fetch_chapters env asin w"
proof -
  show "calculate_total_duration (env\<lparr>run_cut := f\<rparr>) fs = calculate_total_duration env fs"
    unfolding calculate_total_duration_def by (rule total_loop_cong) simp_all
qed (simp_all add: get_mp3_files_def get_metadata_from_file_def fetch_book_metadata_def
    fetch_chapters_def Let_def split: http_outcome.splits option.splits sum.splits)

lemma demo_asin: "ustr ''asin'' \<noteq> ustr ''title''" "ustr ''title'' \<noteq> ustr ''asin''"
  by (simp_all add: ustr_def)

lemma demo_metadata:
  "get_metadata_from_file (demo_env c) p =
     Some [(ustr ''title'', JStr fallback_title), (ustr ''author'', JStr fallback_author),
           (ustr ''region'', JStr (ustr ''US''))]"
  by (simp add: get_metadata_from_file_def demo_fields)

lemma demo_lookup:
  "fetch_book_metadata (demo_env c)
     (dict_set [(ustr ''title'', JStr fallback_title), (ustr ''author'', JStr fallback_author),
           (ustr ''region'', JStr (ustr ''US''))] ''lengthMinutes'' v) w =
   (Inr (Some demo_book),
    w\<lparr>trace := trace w @
      [Search (JStr fallback_title) (JStr fallback_author) (JStr (ustr ''US'')),
       UserChoice (JArr [demo_book])]\<rparr>)"
  by (simp add: fetch_book_metadata_def demo_fields Let_def dict_set_def dict_get_def emit_def
      ustr_def)

lemma demo_fetch:
  "fetch_chapters (demo_env (JArr raws)) asin w =
     (case process_loop [] raws of Inl e \<Rightarrow> Inr None | Inr cs \<Rightarrow> Inr (Some cs),
      w\<lparr>trace := trace w @ [GetChapters asin]\<rparr>)"
  by (simp add: fetch_chapters_def demo_fields Let_def emit_def chapters_handler_def
      split: sum.splits)

lemma process_loop_offsets: "process_loop [] offsets_only = Inr processed_offsets"
  by (simp add: offsets_only_def processed_offsets_def process_chapter_no_length dict_get_def
      ustr_def)

lemma process_folder_demo:
  "process_folder ((demo_env (JArr raws))\<lparr>run_cut := f\<rparr>) w =
     (let w2 = w\<lparr>trace := trace w @ demo_prefix\<rparr>
      in case process_loop [] raws of
           Inl e \<Rightarrow> (False, w2)
         | Inr cs \<Rightarrow>
             if cs = [] then (False, w2)
             else split_and_cleanup ((demo_env (JArr raws))\<lparr>run_cut := f\<rparr>)
                    [ustr ''part1.mp3'', ustr ''part2.mp3''] cs demo_book w2)"
  by (simp add: process_folder_def run_cut_irrelevant demo_mp3_files demo_total demo_metadata
      demo_lookup demo_fetch Let_def demo_book_def demo_asin demo_prefix_def split: sum.splits)


lemma demo_env_run_cut: "(demo_env c)\<lparr>run_cut := (\<lambda>c. Exit 0)\<rparr> = demo_env c"
  by (simp add: demo_env_def)

lemma processed_offsets_not_Nil: "processed_offsets \<noteq> []"
  by (simp add: processed_offsets_def)

lemma demo_paths:
  "path_join (ustr ''/b'') (ustr ''part1.mp3'') = ustr ''/b/part1.mp3''"
  "path_join (ustr ''/b'') (ustr ''part2.mp3'') = ustr ''/b/part2.mp3''"
  by (simp_all add: path_join_def ustr_def)

lemma combine_demo:
  "combine_mp3_files ((demo_env c)\<lparr>run_cut := f\<rparr>) [ustr ''part1.mp3'', ustr ''part2.mp3'']
      \<lparr>files = {ustr ''/b/part1.mp3'', ustr ''/b/part2.mp3''}, trace = t\<rparr> =
   (Inr (ustr ''combined_temp.mp3''),
    \<lparr>files = {ustr ''/b/combined_temp.mp3'', ustr ''/b/part1.mp3'', ustr ''/b/part2.mp3''},
     trace = t @
       [WriteManifest (ustr ''files.txt'')
            [ustr ''file '' @ [39] @ ustr ''/b/part1.mp3'' @ [39, 10],
             ustr ''file '' @ [39] @ ustr ''/b/part2.mp3'' @ [39, 10]],
        FfmpegConcat (ustr ''files.txt'') (ustr ''/b/combined_temp.mp3'') (Exit 0),
        Remove (ustr ''files.txt'') True]\<rparr>)"
  by (simp add: combine_mp3_files_def combine_try_def combine_finally_def manifest_line_def
      os_remove_def combined_file_def demo_fields Let_def path_join_def ustr_def emit_def create_def
      insert_commute)

lemma split_fail_demo:
  "split_by_chapters ((demo_env c)\<lparr>run_cut := (\<lambda>c. Exit 1)\<rparr>) (ustr ''combined_temp.mp3'')
      processed_offsets demo_book \<lparr>files = F, trace = t\<rparr> =
   (False,
    \<lparr>files = F,
     trace = t @
       [FfmpegCut 1 \<lparr>cmd_input = ustr ''/b/combined_temp.mp3'', cmd_ss = JInt 0, cmd_t = 0,
                    cmd_output = ustr ''/b/01_A.mp3''\<rparr> (Exit 1),
        FfmpegCut 2 \<lparr>cmd_input = ustr ''/b/combined_temp.mp3'', cmd_ss = JInt 300, cmd_t = 0,
                    cmd_output = ustr ''/b/02_B.mp3''\<rparr> (Exit 1)]\<rparr>)"
  by (simp add: processed_offsets_def demo_fields eval_defs)




lemma demo_first_file:
  "path_join (folder_path (demo_env c)) (hd (get_mp3_files (demo_env c))) = ustr ''/b/part1.mp3''"
  by (simp add: demo_mp3_files demo_fields demo_paths)





section \<open>The originals are removed last\<close>






section \<open>An empty chapter list\<close>

text \<open>
  The sweep itself would report success on an empty list, without a single command; it
  is \<open>process_folder\<close> that turns the empty list down (\<open>if not chapters\<close>) before
  anything is combined or split.
\<close>

lemma fetch_chapters_empty:
  assumes "http_chapters env asin = Answer (JObj data) shown"
    and "map_of data (ustr ''chapters'') = Some (JArr [])"
    and "fst (fetch_chapters env asin w) = Inr (Some cs)"
  shows "cs = []"
  using assms
  by (auto simp: fetch_chapters_def Let_def chapters_handler_def split: if_splits)

lemma split_by_chapters_empty: "split_by_chapters env f [] bm w = (True, w)"
  by (simp add: split_by_chapters_def)

text \<open>
  C4. When the chapters endpoint answers with a chapter list of zero entries,
  \<open>process_folder\<close> reports failure, and it plans and does nothing: no manifest, no
  ffmpeg run, no tagging, no removal, and the files are as they were.
\<close>

theorem no_chapters_no_split:
  assumes "\<forall>asin. \<exists>data shown. http_chapters env asin = Answer (JObj data) shown \<and>
             map_of data (ustr ''chapters'') = Some (JArr [])"
  shows "fst (process_folder env w) = False \<and>
         files (snd (process_folder env w)) = files w \<and>
         (\<exists>evs. trace (snd (process_folder env w)) = trace w @ evs \<and> acts evs = [])"
proof -
  obtain ok w' where pf: "process_folder env w = (ok, w')" by (cases "process_folder env w")
  have "\<not> (\<exists>cs bm asin w1 w2 evs. cs \<noteq> [] \<and> get_mp3_files env \<noteq> [] \<and>
             fst (fetch_chapters env asin w1) = Inr (Some cs) \<and>
             files w2 = files w \<and> trace w2 = trace w @ evs \<and> acts evs = [] \<and>
             split_and_cleanup env (get_mp3_files env) cs bm w2 = (ok, w'))"
  proof
    assume "\<exists>cs bm asin w1 w2 evs. cs \<noteq> [] \<and> get_mp3_files env \<noteq> [] \<and>
             fst (fetch_chapters env asin w1) = Inr (Some cs) \<and>
             files w2 = files w \<and> trace w2 = trace w @ evs \<and> acts evs = [] \<and>
             split_and_cleanup env (get_mp3_files env) cs bm w2 = (ok, w')"
    then obtain cs asin w1 where c: "cs \<noteq> []"
      and f: "fst (fetch_chapters env asin w1) = Inr (Some cs)" by blast
    from assms obtain data shown where "http_chapters env asin = Answer (JObj data) shown"
      "map_of data (ustr ''chapters'') = Some (JArr [])" by blast
    from fetch_chapters_empty[OF this f] c show False by simp
  qed
  with process_folder_cases[OF pf]
  have "\<not> ok \<and> files w' = files w \<and> (\<exists>evs. trace w' = trace w @ evs \<and> acts evs = [])"
    by blast
  then show ?thesis using pf by simp
qed

theorem no_chapters_no_split_witness:
  "(\<forall>asin. \<exists>data shown. http_chapters (demo_env (JArr [])) asin = Answer (JObj data) shown \<and>
             map_of data (ustr ''chapters'') = Some (JArr [])) \<and>
   process_folder (demo_env (JArr [])) demo_world =
     (False, \<lparr>files = {ustr ''/b/part1.mp3'', ustr ''/b/part2.mp3''}, trace = demo_prefix\<rparr>) \<and>
   acts demo_prefix = []"
proof -
  have h: "\<forall>asin. \<exists>data shown. http_chapters (demo_env (JArr [])) asin = Answer (JObj data) shown \<and>
             map_of data (ustr ''chapters'') = Some (JArr [])"
    by (auto simp: demo_fields)
  from no_chapters_no_split[OF h, of demo_world]
  have f: "fst (process_folder (demo_env (JArr [])) demo_world) = False" by blast
  have s: "snd (process_folder (demo_env (JArr [])) demo_world) =
      \<lparr>files = {ustr ''/b/part1.mp3'', ustr ''/b/part2.mp3''}, trace = demo_prefix\<rparr>"
    using process_folder_demo[where raws = "[]" and f = "\<lambda>c. Exit 0" and w = demo_world]
    by (simp add: demo_env_run_cut demo_world_def)
  have p: "process_folder (demo_env (JArr [])) demo_world =
     (False, \<lparr>files = {ustr ''/b/part1.mp3'', ustr ''/b/part2.mp3''}, trace = demo_prefix\<rparr>)"
    using f s by (simp add: prod_eq_iff)
  have a: "acts demo_prefix = []" by (simp add: demo_prefix_def)
  show ?thesis by (intro conjI) (fact h p a)+
qed

section \<open>The combined file after a failed split\<close>

text \<open>
  C8 at a failing input: two files are combined, and ffmpeg exits with status 1 on each
  of the two chapters. The manifest \<open>files.txt\<close> is removed, by the \<open>finally\<close> clause
  of \<open>combine_mp3_files\<close>. The combined file \<open>/b/combined_temp.mp3\<close> is still there
  when \<open>process_folder\<close> returns \<open>False\<close>, and no removal of it was attempted: its
  removal, under the comment \<open># Clean up combined file if it was created\<close>, sits inside
  \<open>if splitting_successful:\<close>.
\<close>

theorem combined_file_left_behind:
  "process_folder cut_fail_env demo_world =
     (False,
      \<lparr>files = {ustr ''/b/combined_temp.mp3'', ustr ''/b/part1.mp3'', ustr ''/b/part2.mp3''},
       trace = demo_prefix @
         [WriteManifest (ustr ''files.txt'')
            [ustr ''file '' @ [39] @ ustr ''/b/part1.mp3'' @ [39, 10],
             ustr ''file '' @ [39] @ ustr ''/b/part2.mp3'' @ [39, 10]],
          FfmpegConcat (ustr ''files.txt'') (ustr ''/b/combined_temp.mp3'') (Exit 0),
          Remove (ustr ''files.txt'') True,
          FfmpegCut 1 \<lparr>cmd_input = ustr ''/b/combined_temp.mp3'', cmd_ss = JInt 0, cmd_t = 0,
                       cmd_output = ustr ''/b/01_A.mp3''\<rparr> (Exit 1),
          FfmpegCut 2 \<lparr>cmd_input = ustr ''/b/combined_temp.mp3'', cmd_ss = JInt 300, cmd_t = 0,
                       cmd_output = ustr ''/b/02_B.mp3''\<rparr> (Exit 1)]\<rparr>)"
  by (simp add: cut_fail_env_def process_folder_demo process_loop_offsets
      processed_offsets_not_Nil split_and_cleanup_def demo_world_def demo_fields demo_paths
      combine_demo split_fail_demo)

section \<open>A file without tags, a file that cannot be read\<close>








end
